theory Spec2Isabelle
  imports Main "HOL-Library.Word"
begin

section \<open>JavaScript strings and \<open>EagerForm.unicodeStrLen\<close>\<close>

text \<open>
  A JavaScript string is a sequence of 16-bit code units. Only a field's \<open>value\<close> is
  measured in code units by the library, so only it is modelled at that level; attribute
  texts, catalog keys and templates are \<open>string\<close>s.
\<close>

type_synonym jsstring = "16 word list"

definition isHigh :: "16 word \<Rightarrow> bool" where
  \<comment> \<open>the class of high surrogates, U+D800 to U+DBFF\<close>
  "isHigh c = (0xD800 \<le> c \<and> c \<le> 0xDBFF)"

definition isLow :: "16 word \<Rightarrow> bool" where
  \<comment> \<open>the class of low surrogates, U+DC00 to U+DFFF\<close>
  "isLow c = (0xDC00 \<le> c \<and> c \<le> 0xDFFF)"

definition isBmpScalar :: "16 word \<Rightarrow> bool" where
  \<comment> \<open>the class U+0000 to U+D7FF, U+E000 to U+FFFF: no surrogate\<close>
  "isBmpScalar c = (c \<le> 0xD7FF \<or> 0xE000 \<le> c)"

definition nextIsLow :: "jsstring \<Rightarrow> bool" where
  "nextIsLow cs = (case cs of [] \<Rightarrow> False | d # _ \<Rightarrow> isLow d)"

text \<open>
  One attempt of the regular expression of \<open>unicodeStrLen\<close> at the head of a suffix of
  the subject; \<open>atStart\<close> says that the suffix is the whole subject (where \<open>^\<close> matches,
  the expression having no \<open>m\<close> flag). The alternatives are tried in the order they are
  written: a code unit that is no surrogate; a high surrogate and a low one; a high
  surrogate not followed by a low one; a code unit that is no high surrogate, and then a
  low surrogate; the start of the subject, and then a low surrogate. The result is the
  number of code units the match consumes.
\<close>

definition matchAt :: "bool \<Rightarrow> jsstring \<Rightarrow> nat option" where
  "matchAt atStart s =
     (case s of
        [] \<Rightarrow> None
      | c # cs \<Rightarrow>
          if isBmpScalar c then Some 1
          else if isHigh c \<and> nextIsLow cs then Some 2
          else if isHigh c \<and> \<not> nextIsLow cs then Some 1
          else if \<not> isHigh c \<and> nextIsLow cs then Some 2
          else if atStart \<and> isLow c then Some 1
          else None)"

text \<open>
  \<open>str.match(/.../g)\<close>: the matches from left to right; where no alternative matches,
  the search moves on by one code unit. Only the number of matches is kept.
\<close>

fun matchAll :: "bool \<Rightarrow> jsstring \<Rightarrow> nat" where
  "matchAll atStart [] = 0"
| "matchAll atStart (c # cs) =
     (case matchAt atStart (c # cs) of
        None \<Rightarrow> matchAll False cs
      | Some n \<Rightarrow> Suc (matchAll False (drop (n - 1) cs)))"

text \<open>
  \<open>unicodeStrLen\<close>: the empty string is falsy and gives 0. \<open>match\<close> returns \<open>null\<close> when
  nothing matches, and reading \<open>length\<close> of it would throw; \<open>matchAll_nonempty\<close> below shows
  that a non-empty subject always has a match, so that path does not exist.
\<close>

definition unicodeStrLen :: "jsstring \<Rightarrow> nat" where
  "unicodeStrLen str = (if str = [] then 0 else matchAll True str)"

text \<open>
  The number of Unicode code points of a string, as the string iterator (\<open>[...str]\<close>)
  counts them: a high surrogate directly followed by a low one is one code point, every
  other code unit is one code point of its own.
\<close>

fun codePointCount :: "jsstring \<Rightarrow> nat" where
  "codePointCount [] = 0"
| "codePointCount [c] = 1"
| "codePointCount (c # d # cs) =
     (if isHigh c \<and> isLow d then Suc (codePointCount cs) else Suc (codePointCount (d # cs)))"

text \<open>Well-formed UTF-16: every surrogate is part of a pair.\<close>

fun wellFormed :: "jsstring \<Rightarrow> bool" where
  "wellFormed [] = True"
| "wellFormed [c] = (\<not> isHigh c \<and> \<not> isLow c)"
| "wellFormed (c # d # cs) =
     (if isHigh c then isLow d \<and> wellFormed cs else \<not> isLow c \<and> wellFormed (d # cs))"


section \<open>Elements, the locale catalog and the options\<close>

text \<open>
  A form control as the library reads and writes it. \<open>attrs\<close> are its attributes
  (\<open>hasAttribute\<close>, \<open>getAttribute\<close>); \<open>violated\<close> lists the native flags of
  \<open>element.validity\<close> that are true, in the order \<open>for (key in element.validity)\<close>
  enumerates them (the platform decides both); \<open>customValidity\<close> is the text last given to
  \<open>setCustomValidity\<close>; \<open>nativeMessage\<close> is the platform's own message for a native
  violation. \<open>classes\<close>, \<open>parentClasses\<close>, \<open>feedback\<close> and \<open>busy\<close> are what the library
  shows: the class list of the control, the class list of its parent, the text of the
  feedback element inside the parent (\<open>None\<close> while there is none) and the parent's
  \<open>data-eager-remote-busy\<close> attribute. Each control is taken to have a parent of its
  own that holds no other control of the same name.
\<close>

record element =
  elemId :: string
  tagName :: string
  etype :: string
  hasCheckValidity :: bool
  attrs :: "string \<rightharpoonup> string"
  evalue :: jsstring
  violated :: "string list"
  customValidity :: string
  nativeMessage :: string
  classes :: "string set"
  parentClasses :: "string set"
  feedback :: "string option"
  busy :: "string option"

definition hasAttribute :: "element \<Rightarrow> string \<Rightarrow> bool" where
  "hasAttribute el a = (attrs el a \<noteq> None)"

definition getAttribute :: "element \<Rightarrow> string \<Rightarrow> string option" where
  \<comment> \<open>\<open>None\<close> is JavaScript's \<open>null\<close>\<close>
  "getAttribute el a = attrs el a"

definition checkValidity :: "element \<Rightarrow> bool" where
  "checkValidity el = (violated el = [] \<and> customValidity el = [])"

definition validationMessage :: "element \<Rightarrow> string" where
  \<comment> \<open>the platform's \<open>element.validationMessage\<close>: the custom text when one is set\<close>
  "validationMessage el =
     (if customValidity el \<noteq> [] then customValidity el
      else if violated el \<noteq> [] then nativeMessage el
      else [])"

text \<open>
  One locale of \<open>EagerForm.messages\<close>: the templates by key, and the optional table
  \<open>numbers\<close> of digit substitutions, in the order \<open>for (x in numbers)\<close> enumerates it. Each
  key of the table is taken to be a single literal character.
\<close>

record catalog =
  templates :: "string \<rightharpoonup> string"
  numbers :: "(char \<times> string) list option"

record options =
  localeName :: string
  showSuccessState :: bool
  revalidate :: "string list option"
  noTriggerOnTab :: bool
  delayOpt :: "string \<rightharpoonup> int"
  debounceOpt :: "string \<rightharpoonup> int"
  validateWithoutName :: bool
  captureSubmit :: bool
  disableSubmit :: bool
  captureReset :: bool

definition translate :: "catalog \<Rightarrow> string \<Rightarrow> string option" where
  \<comment> \<open>\<open>translate(key)\<close> with the default fallback \<open>null\<close>; an empty template is falsy\<close>
  "translate cat key =
     (case templates cat key of
        None \<Rightarrow> None
      | Some m \<Rightarrow> if m = [] then None else Some m)"

section \<open>The message resolver\<close>

datatype jsval = Undefined | Null | Str string

definition toStr :: "jsval \<Rightarrow> string" where
  \<comment> \<open>the string a replacer function's result is turned into\<close>
  "toStr v = (case v of Undefined \<Rightarrow> ''undefined'' | Null \<Rightarrow> ''null'' | Str s \<Rightarrow> s)"

function showNat :: "nat \<Rightarrow> string" where
  "showNat n =
     (if n < 10 then [''0123456789'' ! n]
      else showNat (n div 10) @ [''0123456789'' ! (n mod 10)])"
  by pat_completeness auto
termination
  by (relation "measure id") auto

definition replaceAll :: "char \<Rightarrow> string \<Rightarrow> string \<Rightarrow> string" where
  \<comment> \<open>\<open>string.replace(new RegExp(x, 'g'), y)\<close> for a literal character \<open>x\<close>\<close>
  "replaceAll x y s = concat (map (\<lambda>c. if c = x then y else [c]) s)"

definition translateDigits :: "catalog \<Rightarrow> string \<Rightarrow> string" where
  \<comment> \<open>the loop of \<open>translateNumbers\<close> over \<open>this.translate('numbers', {})\<close>\<close>
  "translateDigits cat s =
     fold (\<lambda>(x, y) acc. replaceAll x y acc) (case numbers cat of None \<Rightarrow> [] | Some t \<Rightarrow> t) s"

definition translateNumbers :: "catalog \<Rightarrow> jsval \<Rightarrow> jsval" where
  "translateNumbers cat v =
     (case v of
        Undefined \<Rightarrow> Undefined
      | Null \<Rightarrow> Null
      | Str s \<Rightarrow> Str (translateDigits cat s))"

definition attrVal :: "element \<Rightarrow> string \<Rightarrow> jsval" where
  "attrVal el a = (case getAttribute el a of None \<Rightarrow> Null | Some s \<Rightarrow> Str s)"

definition isSpace :: "char \<Rightarrow> bool" where
  \<comment> \<open>the class \<open>\s\<close>, on the characters a \<open>string\<close> has\<close>
  "isSpace c = (c \<in> set [CHR '' '', CHR 0x09, CHR 0x0A, CHR 0x0B, CHR 0x0C, CHR 0x0D])"

definition isWordDot :: "char \<Rightarrow> bool" where
  \<comment> \<open>the class \<open>[\w.]\<close>\<close>
  "isWordDot c =
     (c \<in> set ''abcdefghijklmnopqrstuvwxyzABCDEFGHIJKLMNOPQRSTUVWXYZ0123456789_.'')"

text \<open>
  The part of the expression of \<open>strtpl\<close> after the opening brace, tried on the text
  that follows the brace: white space, one or more of \<open>[\w.]\<close>, white space, the closing
  brace. The classes are disjoint, so the lazy and the greedy quantifiers leave one way
  to match. The result is the captured group and the number of characters consumed after
  the opening brace.
\<close>

definition matchPlaceholder :: "string \<Rightarrow> (string \<times> nat) option" where
  "matchPlaceholder s =
     (let ws1 = takeWhile isSpace s; r1 = dropWhile isSpace s;
          w = takeWhile isWordDot r1; r2 = dropWhile isWordDot r1;
          ws2 = takeWhile isSpace r2; r3 = dropWhile isSpace r2
      in if w \<noteq> [] \<and> r3 \<noteq> [] \<and> hd r3 = CHR ''}''
         then Some (ws1 @ w @ ws2, length ws1 + length w + length ws2 + 1)
         else None)"

definition replacement :: "(string \<times> jsval) list \<Rightarrow> string \<Rightarrow> string" where
  \<comment> \<open>the replacer function of \<open>strtpl\<close>; \<open>contents in replacements\<close> on the object's own keys\<close>
  "replacement data contents =
     (case map_of data contents of None \<Rightarrow> [] | Some v \<Rightarrow> toStr v)"

fun strtpl :: "string \<Rightarrow> (string \<times> jsval) list \<Rightarrow> string" where
  "strtpl [] data = []"
| "strtpl (c # cs) data =
     (if c = CHR ''{'' then
        (case matchPlaceholder cs of
           Some (contents, n) \<Rightarrow> replacement data contents @ strtpl (drop n cs) data
         | None \<Rightarrow> c # strtpl cs data)
      else c # strtpl cs data)"

definition toLowerChar :: "char \<Rightarrow> char" where
  "toLowerChar c =
     (case map_of (zip ''ABCDEFGHIJKLMNOPQRSTUVWXYZ'' ''abcdefghijklmnopqrstuvwxyz'') c of
        None \<Rightarrow> c | Some d \<Rightarrow> d)"

definition toUpperChar :: "char \<Rightarrow> char" where
  "toUpperChar c =
     (case map_of (zip ''abcdefghijklmnopqrstuvwxyz'' ''ABCDEFGHIJKLMNOPQRSTUVWXYZ'') c of
        None \<Rightarrow> c | Some d \<Rightarrow> d)"

definition isUpper :: "char \<Rightarrow> bool" where
  "isUpper c = (c \<in> set ''ABCDEFGHIJKLMNOPQRSTUVWXYZ'')"

definition capitalize :: "string \<Rightarrow> string" where
  \<comment> \<open>\<open>type.charAt(0).toUpperCase() + type.slice(1)\<close>\<close>
  "capitalize s = (case s of [] \<Rightarrow> [] | c # cs \<Rightarrow> toUpperChar c # cs)"

definition kebab :: "string \<Rightarrow> string" where
  \<comment> \<open>\<open>validityType.replace(/[A-Z]/g, '-$&').toLowerCase()\<close>\<close>
  "kebab s = map toLowerChar (concat (map (\<lambda>c. if isUpper c then [CHR ''-'', c] else [c]) s))"

definition inlineAttr :: "string \<Rightarrow> string" where
  "inlineAttr validityType = ''data-eager-'' @ kebab validityType @ ''-error''"

definition specificKey :: "element \<Rightarrow> string \<Rightarrow> string" where
  "specificKey el validityType = validityType @ capitalize (map toLowerChar (etype el))"

definition typedKinds :: "string list" where
  \<comment> \<open>the \<open>case\<close> labels of the \<open>switch (validityType)\<close> that try the type-specific key\<close>
  "typedKinds = [''valueMissing'', ''typeMismatch'', ''rangeOverflow'', ''rangeUnderflow'', ''badInput'']"

text \<open>
  \<open>getMessage\<close> up to the test \<open>msg == null\<close>: the template chosen for a validity kind
  other than \<open>customError\<close>, \<open>None\<close> when the platform's message is to be used.
\<close>

definition chooseTemplate :: "catalog \<Rightarrow> element \<Rightarrow> string \<Rightarrow> string option" where
  "chooseTemplate cat el validityType =
     (let msg =
            (if hasAttribute el (inlineAttr validityType)
               then getAttribute el (inlineAttr validityType)
             else if hasAttribute el ''data-eager-error''
               then getAttribute el ''data-eager-error''
             else None)
      in if msg = None \<or> msg = Some [] then
           (if validityType \<in> set typedKinds then
              (case translate cat (specificKey el validityType) of
                 None \<Rightarrow> translate cat validityType
               | Some m \<Rightarrow> Some m)
            else translate cat validityType)
         else msg)"

text \<open>
  The object \<open>data\<close> of \<open>getMessage\<close>, as a list of its keys and values. The literal
  has the keys \<open>count\<close>, \<open>maxlength\<close>, \<open>minlength\<close> and \<open>step\<close>; the \<open>switch (type)\<close> then
  sets \<open>min\<close> and \<open>max\<close> from \<open>data.min\<close> and \<open>data.max\<close>, which the literal does not hold, so
  both are read as \<open>undefined\<close>: \<open>translateNumbers(undefined)\<close> is \<open>undefined\<close>, and
  \<open>new Date(undefined).toLocaleString(...)\<close> is the text of an invalid date.
\<close>

definition messageData :: "catalog \<Rightarrow> element \<Rightarrow> (string \<times> jsval) list" where
  "messageData cat el =
     (let type = map toLowerChar (etype el);
          data = [(''count'', translateNumbers cat (Str (showNat (unicodeStrLen (evalue el))))),
                  (''maxlength'', translateNumbers cat (attrVal el ''maxlength'')),
                  (''minlength'', translateNumbers cat (attrVal el ''minlength'')),
                  (''step'', translateNumbers cat (attrVal el ''step''))]
      in if type = ''number'' \<or> type = ''range'' then
           data @ [(''min'', translateNumbers cat Undefined), (''max'', translateNumbers cat Undefined)]
         else if type = ''date'' \<or> type = ''datetime-local'' then
           data @ [(''min'', Str ''Invalid Date''), (''max'', Str ''Invalid Date'')]
         else data)"

definition getMessage :: "catalog \<Rightarrow> element \<Rightarrow> string \<Rightarrow> string" where
  "getMessage cat el validityType =
     (if validityType = ''customError'' then validationMessage el
      else case chooseTemplate cat el validityType of
             None \<Rightarrow> validationMessage el
           | Some msg \<Rightarrow> strtpl msg (messageData cat el))"


section \<open>The form-level aggregator\<close>

definition suppressed :: "element \<Rightarrow> bool" where
  \<comment> \<open>\<open>element.hasAttribute('novalidate') && element.getAttribute('novalidate') !== 'false'\<close>\<close>
  "suppressed el = (hasAttribute el ''novalidate'' \<and> getAttribute el ''novalidate'' \<noteq> Some ''false'')"

definition unnamed :: "element \<Rightarrow> bool" where
  \<comment> \<open>\<open>!element.getAttribute('name')\<close>: no attribute, or an empty one\<close>
  "unnamed el = (getAttribute el ''name'' = None \<or> getAttribute el ''name'' = Some [])"

definition matchesInvalid :: "element \<Rightarrow> bool" where
  \<comment> \<open>the selector \<open>input:invalid,select:invalid,textarea:invalid\<close>\<close>
  "matchesInvalid el =
     (tagName el \<in> set [''INPUT'', ''SELECT'', ''TEXTAREA''] \<and> \<not> checkValidity el)"

fun firstIndex :: "('a \<Rightarrow> bool) \<Rightarrow> 'a list \<Rightarrow> nat option" where
  \<comment> \<open>\<open>querySelector\<close>: the first match in document order, as a position\<close>
  "firstIndex P [] = None"
| "firstIndex P (x # xs) =
     (if P x then Some 0 else map_option Suc (firstIndex P xs))"

definition getFirstError :: "options \<Rightarrow> element list \<Rightarrow> nat option" where
  "getFirstError op els =
     (case firstIndex matchesInvalid els of
        None \<Rightarrow> None
      | Some i \<Rightarrow>
          if suppressed (els ! i) then None
          else if \<not> validateWithoutName op \<and> unnamed (els ! i) then None
          else Some i)"

definition isValid :: "options \<Rightarrow> element list \<Rightarrow> bool" where
  "isValid op els = (getFirstError op els = None)"

text \<open>
  What the specification says of \<open>getFirstError\<close>, in its words: the first field in
  document order that is failing validation, fields with an active suppress marker and
  unnamed fields (unless configured otherwise) left out of consideration.
\<close>

definition firstErrorSpec :: "options \<Rightarrow> element list \<Rightarrow> nat option" where
  "firstErrorSpec op els =
     firstIndex (\<lambda>el. matchesInvalid el \<and> \<not> suppressed el
                      \<and> (validateWithoutName op \<or> \<not> unnamed el)) els"

section \<open>The constructor\<close>

datatype handler = InputHandler nat | SubmitHandler nat | ResetHandler nat

text \<open>
  The form element as the constructor touches it: its event listeners (type, the bound
  handler of an instance, the capture flag), its \<open>novalidate\<close> attribute and its
  property \<open>EagerForm\<close>. Instances are numbered; \<open>InputHandler i\<close> is the function
  \<open>this.handleInput.bind(this)\<close> of instance \<open>i\<close>.
\<close>

record formElement =
  listeners :: "(string \<times> handler \<times> bool) list"
  formNovalidate :: "string option"
  formEagerForm :: "nat option"

datatype jserror = Error string | TypeError string

definition addEventListener :: "string \<Rightarrow> handler \<Rightarrow> bool \<Rightarrow> formElement \<Rightarrow> formElement" where
  \<comment> \<open>the platform adds nothing when the same listener is already there\<close>
  "addEventListener ty h cap f =
     (if (ty, h, cap) \<in> set (listeners f) then f
      else f\<lparr>listeners := listeners f @ [(ty, h, cap)]\<rparr>)"

definition unBubbledEvents :: "string list" where
  "unBubbledEvents = [''blur'', ''focus'']"

definition attachEvents :: "nat \<Rightarrow> options \<Rightarrow> formElement \<Rightarrow> formElement" where
  "attachEvents this op f =
     (let f1 = (case revalidate op of
                  None \<Rightarrow> f
                | Some evs \<Rightarrow>
                    fold (\<lambda>ev g. addEventListener ev (InputHandler this) (ev \<in> set unBubbledEvents) g)
                      evs f);
          f2 = (if captureSubmit op then addEventListener ''submit'' (SubmitHandler this) False f1
                else f1)
      in if captureReset op then addEventListener ''reset'' (ResetHandler this) False f2 else f2)"

definition start :: "nat \<Rightarrow> options \<Rightarrow> formElement \<Rightarrow> formElement" where
  "start this op f = (attachEvents this op f)\<lparr>formNovalidate := Some ''true''\<rparr>"

text \<open>
  \<open>new EagerForm(element, options)\<close> on a form element: \<open>loaded\<close> are the names of the
  locales in \<open>EagerForm.messages\<close>, \<open>this\<close> is the number of the object under
  construction, \<open>op\<close> the merged options. The result is the thrown error, or the instance
  the expression evaluates to together with the form.
\<close>

definition construct ::
  "string set \<Rightarrow> nat \<Rightarrow> options \<Rightarrow> formElement \<Rightarrow> jserror + (nat \<times> formElement)" where
  "construct loaded this op f =
     (if localeName op \<notin> loaded
        then Inl (Error (''The locale '' @ localeName op @ '' is not loaded.''))
      else case formEagerForm f of
             None \<Rightarrow> Inr (this, (start this op f)\<lparr>formEagerForm := Some this\<rparr>)
           | Some existing \<Rightarrow> Inr (existing, f))"


section \<open>The state of one instance and of the platform around it\<close>

datatype ruleKind = Remote | Custom

datatype outcome = Fulfilled | Rejected "string option"

datatype callback = Direct | Debounced nat

datatype action =
    Delayed string nat callback
  | Trailing nat

text \<open>
  A pending timer of the platform. \<open>Delayed ty target cb\<close> is the closure
  \<open>() => { callback(event.target) }\<close> that \<open>handleInput\<close> hands to \<open>setTimeout\<close>
  (the event type \<open>ty\<close> is kept for reference only); \<open>Trailing d\<close> is the timer a
  debounced function \<open>d\<close> runs for its trailing call.
\<close>

record timer =
  timerId :: nat
  due :: int
  act :: action

record debouncedFn =
  wait :: int
  pendingTimer :: "nat option"
  lastArg :: "nat option"

text \<open>
  The handler \<open>xhr.onload\<close> that \<open>remoteRule\<close> installs: a closure over \<open>reverse\<close>,
  \<open>msg\<close>, the element and the \<open>resolve\<close> and \<open>reject\<close> of the promise it was made in.
\<close>

record loadHandler =
  hPromise :: nat
  hReverse :: bool
  hMsg :: "string option"
  hTarget :: nat

record xhr =
  readyState :: nat
  onload :: "loadHandler option"

text \<open>
  A promise a rule has returned and that has not settled, with the \<open>then\<close> and \<open>catch\<close>
  callbacks of \<open>validateField\<close> attached: they close over the element and the attribute.
  \<open>pPass\<close> is for reference only: the number of the call of \<open>validateField\<close> that
  launched the rule, counted over the whole run, so that a later pass on a field has a
  larger number.
\<close>

record promise =
  pTarget :: nat
  pAttr :: string
  pKind :: ruleKind
  pPass :: nat

record button =
  btnDisabled :: bool
  btnClasses :: "string set"

text \<open>
  \<open>opts\<close>, \<open>cat\<close> and \<open>rules\<close> are \<open>this.options\<close>, the catalog of the instance's locale
  and \<open>EagerForm.rules\<close> in the order \<open>for (key in EagerForm.rules)\<close> enumerates it. A
  rule is \<open>Remote\<close> (the rule of \<open>rules/remote.js\<close>) or \<open>Custom\<close>: any other
  asynchronous predicate, whose promise the environment settles.
  \<open>elements\<close> are the controls of the form in document order, \<open>submitBtn\<close> is
  \<open>this.submitBtn\<close>; \<open>intervals\<close> is \<open>this.intervals\<close>; \<open>xhrs\<close> are the properties
  \<open>this['__remote_request_' + id]\<close>. \<open>timers\<close>, \<open>debounced\<close>, \<open>network\<close> (the
  requests in flight, each with the name of its \<open>XMLHttpRequest\<close>), \<open>promises\<close>, \<open>clock\<close>
  (milliseconds) and \<open>console\<close> belong to the platform; \<open>nextId\<close> numbers what is created.
  \<open>invoked\<close>, \<open>applied\<close> and \<open>aborted\<close> record what happened and are read by no
  operation: the calls of \<open>validateField\<close> (time and element), the settlements whose
  \<open>then\<close> or \<open>catch\<close> callback ran, and the requests \<open>abort()\<close> ended.
\<close>

record world =
  opts :: options
  cat :: catalog
  rules :: "(string \<times> ruleKind) list"
  elements :: "element list"
  submitBtn :: "button option"
  intervals :: "string \<rightharpoonup> nat"
  xhrs :: "string \<rightharpoonup> xhr"
  timers :: "timer list"
  debounced :: "nat \<rightharpoonup> debouncedFn"
  network :: "(nat \<times> string) list"
  promises :: "nat \<rightharpoonup> promise"
  clock :: int
  nextId :: nat
  console :: "string list"
  invoked :: "(int \<times> nat) list"
  applied :: "(nat \<times> outcome) list"
  aborted :: "nat list"

section \<open>The field validation pass\<close>

definition inputValidClass :: string where "inputValidClass = ''is-valid''"
definition inputInvalidClass :: string where "inputInvalidClass = ''is-invalid''"
definition parentValidClass :: string where "parentValidClass = ''has-valid-input''"
definition parentInvalidClass :: string where "parentInvalidClass = ''has-invalid-input''"

definition setError :: "catalog \<Rightarrow> element \<Rightarrow> string \<Rightarrow> element" where
  \<comment> \<open>\<open>setError\<close> and the \<open>displayError\<close> it ends with\<close>
  "setError c el validityType =
     (let el1 = el\<lparr>classes := insert inputInvalidClass (classes el) - {inputValidClass},
                   parentClasses := insert parentInvalidClass (parentClasses el) - {parentValidClass}\<rparr>
      in el1\<lparr>feedback := Some (getMessage c el1 validityType)\<rparr>)"

definition clearError :: "options \<Rightarrow> element \<Rightarrow> element" where
  "clearError op el =
     el\<lparr>classes := (if showSuccessState op
                      then insert inputValidClass (classes el - {inputInvalidClass})
                      else classes el - {inputInvalidClass}),
        parentClasses := (if showSuccessState op
                          then insert parentValidClass (parentClasses el)
                          else parentClasses el) - {parentInvalidClass},
        feedback := map_option (\<lambda>_. []) (feedback el)\<rparr>"

definition skipped :: "options \<Rightarrow> element \<Rightarrow> bool" where
  \<comment> \<open>the three early returns of \<open>validateField\<close>\<close>
  "skipped op el =
     ((\<not> hasCheckValidity el \<or> etype el \<in> set [''button'', ''submit'', ''reset''])
      \<or> suppressed el
      \<or> (\<not> validateWithoutName op \<and> unnamed el))"

definition abort :: "string \<Rightarrow> world \<Rightarrow> world" where
  \<comment> \<open>\<open>xhr.abort()\<close>: the request in flight ends, the object is back to \<open>UNSENT\<close>\<close>
  "abort name w =
     (case xhrs w name of
        None \<Rightarrow> w
      | Some x \<Rightarrow>
          w\<lparr>xhrs := (xhrs w)(name \<mapsto> x\<lparr>readyState := 0\<rparr>),
            network := filter (\<lambda>r. snd r \<noteq> name) (network w),
            aborted := aborted w @ map fst (filter (\<lambda>r. snd r = name) (network w))\<rparr>)"

definition xhrOpen :: "string \<Rightarrow> world \<Rightarrow> world" where
  \<comment> \<open>\<open>xhr.open(method, url)\<close>: ends a request still in flight, the object is \<open>OPENED\<close>\<close>
  "xhrOpen name w =
     (case xhrs w name of
        None \<Rightarrow> w
      | Some x \<Rightarrow>
          w\<lparr>xhrs := (xhrs w)(name \<mapsto> x\<lparr>readyState := 1\<rparr>),
            network := filter (\<lambda>r. snd r \<noteq> name) (network w)\<rparr>)"

definition xhrSend :: "string \<Rightarrow> world \<Rightarrow> world" where
  "xhrSend name w = w\<lparr>network := network w @ [(nextId w, name)], nextId := Suc (nextId w)\<rparr>"

definition requestName :: "element \<Rightarrow> string" where
  "requestName el = ''__remote_request_'' @ elemId el"

text \<open>
  \<open>remoteRule\<close> of \<open>rules/remote.js\<close>, called on element \<open>i\<close> with its attribute; the
  result holds the promise it returns, under the number \<open>p\<close>. The address, the method,
  the headers and the body of the request are not modelled.
\<close>

definition remoteRule :: "nat \<Rightarrow> string \<Rightarrow> nat \<Rightarrow> world \<Rightarrow> world" where
  "remoteRule i attribute p w =
     (let el = elements w ! i;
          reverse = (getAttribute el (attribute @ ''-reverse'') = Some ''true'');
          w1 = w\<lparr>elements := (elements w)[i := el\<lparr>busy := Some ''true''\<rparr>]\<rparr>;
          name = requestName el;
          w2 = (case xhrs w1 name of
                  None \<Rightarrow> w1\<lparr>xhrs := (xhrs w1)(name \<mapsto> \<lparr>readyState = 0, onload = None\<rparr>)\<rparr>
                | Some _ \<Rightarrow> w1);
          w3 = (case xhrs w2 name of
                  None \<Rightarrow> w2
                | Some x \<Rightarrow> if 0 < readyState x \<and> readyState x < 4 then abort name w2 else w2);
          w4 = xhrOpen name w3;
          msg = translate (cat w4) ''remoteInvalid'';
          w5 = (case xhrs w4 name of
                  None \<Rightarrow> w4
                | Some x \<Rightarrow>
                    w4\<lparr>xhrs := (xhrs w4)(name \<mapsto>
                         x\<lparr>onload := Some \<lparr>hPromise = p, hReverse = reverse, hMsg = msg, hTarget = i\<rparr>\<rparr>)\<rparr>)
      in xhrSend name w5)"

definition ruleAttribute :: "string \<Rightarrow> string" where
  \<comment> \<open>\<open>`data-${EagerForm.RULE_PREFIX}-${key}`\<close>\<close>
  "ruleAttribute key = ''data-eager-'' @ key"

definition launch :: "nat \<Rightarrow> nat \<Rightarrow> string \<times> ruleKind \<Rightarrow> world \<Rightarrow> world" where
  \<comment> \<open>one round of the loop over \<open>EagerForm.rules\<close>, in pass number \<open>pass\<close> on element \<open>i\<close>\<close>
  "launch pass i rule w =
     (let attribute = ruleAttribute (fst rule) in
      if \<not> hasAttribute (elements w ! i) attribute then w
      else
        let p = nextId w;
            w1 = w\<lparr>promises := (promises w)(p \<mapsto>
                      \<lparr>pTarget = i, pAttr = attribute, pKind = snd rule, pPass = pass\<rparr>),
                    nextId := Suc p\<rparr>
        in (case snd rule of Custom \<Rightarrow> w1 | Remote \<Rightarrow> remoteRule i attribute p w1))"

definition validateField :: "nat \<Rightarrow> world \<Rightarrow> world" where
  "validateField i w =
     (let w0 = w\<lparr>invoked := invoked w @ [(clock w, i)]\<rparr> in
      if length (elements w) \<le> i then w0
      else
        let el = elements w ! i in
        if skipped (opts w) el then w0
        else if \<not> checkValidity el \<and> violated el \<noteq> [] then
          w0\<lparr>elements := (elements w)[i := fold (\<lambda>key e. setError (cat w) e key) (violated el) el]\<rparr>
        else
          let w1 = (if checkValidity el
                    then w0\<lparr>elements := (elements w)[i := clearError (opts w) el]\<rparr>
                    else w0)
          in fold (launch (length (invoked w0)) i) (rules w) w1)"

definition validate :: "world \<Rightarrow> world" where
  \<comment> \<open>\<open>validate()\<close>: every element of the form that is no \<open>FIELDSET\<close>, in document order\<close>
  "validate w =
     fold (\<lambda>i v. if tagName (elements v ! i) \<noteq> ''FIELDSET'' then validateField i v else v)
       [0 ..< length (elements w)] w"

section \<open>Settlement of a rule's promise\<close>

definition rejectionMessage :: "element \<Rightarrow> string \<Rightarrow> string option \<Rightarrow> string" where
  \<comment> \<open>\<open>msg\<close> of the \<open>catch\<close> callback; \<open>err\<close> is the reason, \<open>None\<close> when there is none\<close>
  "rejectionMessage el attribute err =
     (if hasAttribute el (attribute @ ''-error'')
        then (case getAttribute el (attribute @ ''-error'') of None \<Rightarrow> [] | Some m \<Rightarrow> m)
      else if hasAttribute el ''data-eager-error''
        then (case getAttribute el ''data-eager-error'' of None \<Rightarrow> [] | Some m \<Rightarrow> m)
      else (case err of None \<Rightarrow> [] | Some e \<Rightarrow> e))"

definition onSettled :: "options \<Rightarrow> catalog \<Rightarrow> string \<Rightarrow> outcome \<Rightarrow> element \<Rightarrow> element" where
  \<comment> \<open>the \<open>then\<close> callback and the \<open>catch\<close> callback of \<open>validateField\<close>\<close>
  "onSettled op c attribute out el =
     (case out of
        Fulfilled \<Rightarrow> clearError op (el\<lparr>customValidity := []\<rparr>)
      | Rejected err \<Rightarrow>
          setError c (el\<lparr>customValidity := rejectionMessage el attribute err\<rparr>) ''customError'')"

text \<open>
  A promise settles: it leaves the pending ones, and the callback for the outcome runs
  on the element it closes over. Nothing else is read.
\<close>

definition settle :: "nat \<Rightarrow> outcome \<Rightarrow> world \<Rightarrow> world" where
  "settle p out w =
     (case promises w p of
        None \<Rightarrow> w
      | Some pr \<Rightarrow>
          w\<lparr>promises := (promises w)(p := None),
            elements := (elements w)[pTarget pr :=
                           onSettled (opts w) (cat w) (pAttr pr) out (elements w ! pTarget pr)],
            applied := applied w @ [(p, out)]\<rparr>)"

text \<open>
  The events of an \<open>XMLHttpRequest\<close> the rule listens to. \<open>load\<close>: the response of the
  request in flight has arrived with a status; \<open>onload\<close> runs and resolves or rejects its
  promise. \<open>error\<close>: the request in flight failed at the transport level; \<open>onerror\<close>
  runs, and writes a line to the console.
\<close>

definition xhrLoad :: "string \<Rightarrow> nat \<Rightarrow> world \<Rightarrow> world" where
  "xhrLoad name status w =
     (case xhrs w name of
        None \<Rightarrow> w
      | Some x \<Rightarrow>
          if name \<notin> snd ` set (network w) then w
          else
            let w1 = w\<lparr>xhrs := (xhrs w)(name \<mapsto> x\<lparr>readyState := 4\<rparr>),
                       network := filter (\<lambda>r. snd r \<noteq> name) (network w)\<rparr>
            in (case onload x of
                  None \<Rightarrow> w1
                | Some h \<Rightarrow>
                    let success = ((status = 200) \<noteq> hReverse h);
                        w2 = w1\<lparr>elements := (elements w1)[hTarget h :=
                                  (elements w1 ! hTarget h)\<lparr>busy := Some ''false''\<rparr>]\<rparr>
                    in settle (hPromise h) (if success then Fulfilled else Rejected (hMsg h)) w2))"

definition xhrError :: "string \<Rightarrow> world \<Rightarrow> world" where
  "xhrError name w =
     (case xhrs w name of
        None \<Rightarrow> w
      | Some x \<Rightarrow>
          if name \<notin> snd ` set (network w) then w
          else w\<lparr>xhrs := (xhrs w)(name \<mapsto> x\<lparr>readyState := 4\<rparr>),
                 network := filter (\<lambda>r. snd r \<noteq> name) (network w),
                 console := console w @ [''0 '']\<rparr>)"

text \<open>
  The environment settles the promise of a \<open>Custom\<close> rule; the promise of the remote
  rule is settled by \<open>onload\<close> only.
\<close>

definition settleCustom :: "nat \<Rightarrow> outcome \<Rightarrow> world \<Rightarrow> world" where
  "settleCustom p out w =
     (case promises w p of
        None \<Rightarrow> w
      | Some pr \<Rightarrow> if pKind pr = Custom then settle p out w else w)"


section \<open>The event scheduler\<close>

definition digitValue :: "char \<Rightarrow> int option" where
  "digitValue c = map_of (zip ''0123456789'' [0, 1, 2, 3, 4, 5, 6, 7, 8, 9]) c"

definition hexValue :: "char \<Rightarrow> int option" where
  "hexValue c =
     map_of (zip ''0123456789abcdefABCDEF''
               [0, 1, 2, 3, 4, 5, 6, 7, 8, 9, 10, 11, 12, 13, 14, 15, 10, 11, 12, 13, 14, 15]) c"

definition parseDigits :: "int \<Rightarrow> (char \<Rightarrow> int option) \<Rightarrow> string \<Rightarrow> int option" where
  \<comment> \<open>the longest prefix of digits of the radix; \<open>None\<close> (\<open>NaN\<close>) when there is none\<close>
  "parseDigits radix val s =
     (let ds = takeWhile (\<lambda>c. val c \<noteq> None) s in
      if ds = [] then None
      else Some (foldl (\<lambda>acc c. acc * radix + (case val c of None \<Rightarrow> 0 | Some v \<Rightarrow> v)) 0 ds))"

definition parseInt :: "string \<Rightarrow> int option" where
  \<comment> \<open>the platform's \<open>parseInt(string)\<close> with no radix given; \<open>None\<close> is \<open>NaN\<close>\<close>
  "parseInt s =
     (let s1 = dropWhile isSpace s;
          neg = (s1 \<noteq> [] \<and> hd s1 = CHR ''-'');
          s2 = (if s1 \<noteq> [] \<and> (hd s1 = CHR ''-'' \<or> hd s1 = CHR ''+'') then tl s1 else s1);
          n = (if take 2 s2 = ''0x'' \<or> take 2 s2 = ''0X''
               then parseDigits 16 hexValue (drop 2 s2)
               else parseDigits 10 digitValue s2)
      in map_option (\<lambda>v. if neg then - v else v) n)"

text \<open>The event \<open>handleInput\<close> receives: its type, its target and its \<open>key\<close>.\<close>

record domEvent =
  evType :: string
  evTarget :: nat
  evKey :: "string option"

definition bounceOf :: "options \<Rightarrow> element \<Rightarrow> string \<Rightarrow> int option" where
  \<comment> \<open>the value of \<open>bounce\<close> in \<open>handleInput\<close>; \<open>None\<close> is \<open>NaN\<close>\<close>
  "bounceOf op el ty =
     (let debounceAttribute = ''data-eager-debounce'';
          specificDebounceAttribute = ''data-eager-'' @ ty @ ''-debounce''
      in if hasAttribute el specificDebounceAttribute
           then (case getAttribute el specificDebounceAttribute of None \<Rightarrow> None | Some a \<Rightarrow> parseInt a)
         else if hasAttribute el debounceAttribute
           then (case getAttribute el debounceAttribute of None \<Rightarrow> None | Some a \<Rightarrow> parseInt a)
         else (case debounceOpt op ty of None \<Rightarrow> Some 0 | Some v \<Rightarrow> Some v))"

definition delayOf :: "options \<Rightarrow> element \<Rightarrow> string \<Rightarrow> int option" where
  \<comment> \<open>the value of \<open>delay\<close> in \<open>handleInput\<close>\<close>
  "delayOf op el ty =
     (let delayAttribute = ''data-eager-delay'';
          specificDelayAttribute = ''data-eager-'' @ ty @ ''-delay''
      in if hasAttribute el specificDelayAttribute
           then (case getAttribute el specificDelayAttribute of None \<Rightarrow> None | Some a \<Rightarrow> parseInt a)
         else if hasAttribute el delayAttribute
           then (case getAttribute el delayAttribute of None \<Rightarrow> None | Some a \<Rightarrow> parseInt a)
         else (case delayOpt op ty of None \<Rightarrow> Some 0 | Some v \<Rightarrow> Some v))"

definition positive :: "int option \<Rightarrow> bool" where
  \<comment> \<open>\<open>x > 0\<close>, false for \<open>NaN\<close>\<close>
  "positive x = (case x of None \<Rightarrow> False | Some v \<Rightarrow> 0 < v)"

definition millis :: "int option \<Rightarrow> int" where
  "millis x = (case x of None \<Rightarrow> 0 | Some v \<Rightarrow> v)"

definition setTimeout :: "action \<Rightarrow> int \<Rightarrow> world \<Rightarrow> world" where
  \<comment> \<open>the new timer has the number \<open>nextId w\<close>\<close>
  "setTimeout a ms w =
     w\<lparr>timers := timers w @ [\<lparr>timerId = nextId w, due = clock w + ms, act = a\<rparr>],
       nextId := Suc (nextId w)\<rparr>"

definition clearTimeout :: "nat option \<Rightarrow> world \<Rightarrow> world" where
  \<comment> \<open>\<open>None\<close> is \<open>undefined\<close>; a timer that has fired is no longer there\<close>
  "clearTimeout t w =
     (case t of
        None \<Rightarrow> w
      | Some n \<Rightarrow> w\<lparr>timers := filter (\<lambda>x. timerId x \<noteq> n) (timers w)\<rparr>)"

text \<open>
  Modelled from the spec: \<open>lodash.debounce\<close> is an external dependency, absent from the
  sources. \<open>debounce(func, wait)\<close> returns a new debounced function with a timer of its
  own; a call of that function restarts its timer, and when the timer has run for \<open>wait\<close>
  without a further call of that function, \<open>func\<close> is called once with the arguments of
  the last call (trailing edge).
\<close>

definition debounce :: "int \<Rightarrow> world \<Rightarrow> world" where
  \<comment> \<open>the new debounced function (of \<open>validateField\<close>) has the number \<open>nextId w\<close>\<close>
  "debounce ms w =
     w\<lparr>debounced := (debounced w)(nextId w \<mapsto> \<lparr>wait = ms, pendingTimer = None, lastArg = None\<rparr>),
       nextId := Suc (nextId w)\<rparr>"

definition callDebounced :: "nat \<Rightarrow> nat \<Rightarrow> world \<Rightarrow> world" where
  "callDebounced d target w =
     (case debounced w d of
        None \<Rightarrow> w
      | Some f \<Rightarrow>
          let w1 = clearTimeout (pendingTimer f) w;
              w2 = w1\<lparr>debounced := (debounced w1)(d \<mapsto>
                        f\<lparr>pendingTimer := Some (nextId w1), lastArg := Some target\<rparr>)\<rparr>
          in setTimeout (Trailing d) (wait f) w2)"

definition callCallback :: "callback \<Rightarrow> nat \<Rightarrow> world \<Rightarrow> world" where
  \<comment> \<open>\<open>callback(event.target)\<close>\<close>
  "callCallback cb target w =
     (case cb of
        Direct \<Rightarrow> validateField target w
      | Debounced d \<Rightarrow> callDebounced d target w)"

definition enableSubmit :: "button \<Rightarrow> button" where
  "enableSubmit b = b\<lparr>btnDisabled := False, btnClasses := btnClasses b - {''disabled''}\<rparr>"

definition gateThrows :: "domEvent \<Rightarrow> world \<Rightarrow> bool" where
  \<comment> \<open>\<open>enableSubmit()\<close> is reached and \<open>this.submitBtn\<close> is \<open>null\<close>\<close>
  "gateThrows ev w =
     (evType ev = ''change'' \<and> disableSubmit (opts w) \<and> isValid (opts w) (elements w)
      \<and> submitBtn w = None)"

definition submitGate :: "domEvent \<Rightarrow> world \<Rightarrow> world" where
  \<comment> \<open>the block \<open>On a form change, enable the submit button back\<close>\<close>
  "submitGate ev w =
     (if evType ev = ''change'' \<and> disableSubmit (opts w) \<and> isValid (opts w) (elements w)
      then w\<lparr>submitBtn := map_option enableSubmit (submitBtn w)\<rparr>
      else w)"

definition makeCallback :: "int option \<Rightarrow> world \<Rightarrow> callback \<times> world" where
  \<comment> \<open>\<open>callback\<close> after \<open>if (bounce > 0) { callback = debounce(callback, bounce) }\<close>\<close>
  "makeCallback bounce w =
     (if positive bounce then (Debounced (nextId w), debounce (millis bounce) w)
      else (Direct, w))"

definition dispatch :: "domEvent \<Rightarrow> int option \<Rightarrow> callback \<Rightarrow> world \<Rightarrow> world" where
  \<comment> \<open>the block \<open>if (delay > 0) { ... } else { callback(event.target) }\<close>\<close>
  "dispatch ev delay callback w =
     (if positive delay then
        let w3 = clearTimeout (intervals w (evType ev)) w;
            w4 = w3\<lparr>intervals := (intervals w3)(evType ev \<mapsto> nextId w3)\<rparr>
        in setTimeout (Delayed (evType ev) (evTarget ev) callback) (millis delay) w4
      else callCallback callback (evTarget ev) w)"

text \<open>
  \<open>handleInput\<close>. The event \<open>eager:before-validate\<close> is created without \<open>cancelable\<close>, so
  \<open>dispatchEvent\<close> returns true and \<open>cancelled\<close> is false; listeners of the two events the
  function dispatches are not modelled. Where the form has no submit button,
  \<open>enableSubmit\<close> throws a \<open>TypeError\<close> and the handler ends there. The target of an
  event is an element of the form.
\<close>

definition handleInput :: "domEvent \<Rightarrow> world \<Rightarrow> world" where
  "handleInput ev w =
     (if length (elements w) \<le> evTarget ev then w
      else if noTriggerOnTab (opts w) \<and> evKey ev = Some ''Tab'' then w
      else if gateThrows ev w then w
      else
        let w1 = submitGate ev w;
            el = elements w1 ! evTarget ev;
            bounce = bounceOf (opts w1) el (evType ev);
            (callback, w2) = makeCallback bounce w1;
            delay = delayOf (opts w2) el (evType ev)
        in dispatch ev delay callback w2)"

text \<open>
  The platform runs a timer: the pending timer that is due first, the one created first
  among those due at the same time. The clock moves to the time the timer is due, unless
  it is already later.
\<close>

fun nextTimer :: "timer list \<Rightarrow> timer option" where
  "nextTimer [] = None"
| "nextTimer (t # ts) =
     (case nextTimer ts of
        None \<Rightarrow> Some t
      | Some u \<Rightarrow> if due u < due t then Some u else Some t)"

definition fire :: "timer \<Rightarrow> world \<Rightarrow> world" where
  "fire t w =
     (let w1 = w\<lparr>timers := filter (\<lambda>x. timerId x \<noteq> timerId t) (timers w),
                 clock := max (clock w) (due t)\<rparr>
      in case act t of
           Delayed ty target cb \<Rightarrow> callCallback cb target w1
         | Trailing d \<Rightarrow>
             (case debounced w1 d of
                None \<Rightarrow> w1
              | Some f \<Rightarrow>
                  let w2 = w1\<lparr>debounced := (debounced w1)(d \<mapsto> f\<lparr>pendingTimer := None, lastArg := None\<rparr>)\<rparr>
                  in (case lastArg f of None \<Rightarrow> w2 | Some target \<Rightarrow> validateField target w2)))"

definition tick :: "world \<Rightarrow> world" where
  "tick w = (case nextTimer (timers w) of None \<Rightarrow> w | Some t \<Rightarrow> fire t w)"

section \<open>Runs\<close>

datatype envEvent =
    Dom int domEvent
  | Tick
  | Settle nat outcome
  | Load string nat
  | NetError string
  | Validate

text \<open>
  One step of the single event queue: a DOM event at a time, the next timer, the
  settlement of a custom rule's promise, the two events of a request, or a call of
  \<open>validate()\<close>.
\<close>

fun step :: "envEvent \<Rightarrow> world \<Rightarrow> world" where
  "step (Dom t ev) w = handleInput ev (w\<lparr>clock := max (clock w) t\<rparr>)"
| "step Tick w = tick w"
| "step (Settle p out) w = settleCustom p out w"
| "step (Load name status) w = xhrLoad name status w"
| "step (NetError name) w = xhrError name w"
| "step Validate w = validate w"

definition run :: "envEvent list \<Rightarrow> world \<Rightarrow> world" where
  "run evs w = fold step evs w"


section \<open>What holds along a run\<close>


text \<open>
  The bookkeeping of \<open>this.intervals\<close>: every number handed out is below \<open>nextId\<close>, no
  two pending timers share a number, and a pending timer of \<open>handleInput\<close> for an event
  type is the one \<open>this.intervals\<close> holds for that type, and for no other.
\<close>

definition schedInv :: "world \<Rightarrow> bool" where
  "schedInv w =
     ((\<forall>t \<in> set (timers w). timerId t < nextId w)
      \<and> (\<forall>ty n. intervals w ty = Some n \<longrightarrow> n < nextId w)
      \<and> distinct (map timerId (timers w))
      \<and> (\<forall>t \<in> set (timers w). \<forall>ty target cb. act t = Delayed ty target cb \<longrightarrow>
            (\<forall>ty'. intervals w ty' = Some (timerId t) \<longleftrightarrow> ty' = ty)))"

text \<open>
  The promise that the \<open>onload\<close> handler of an \<open>XMLHttpRequest\<close> settles, and the
  requests in flight on it.
\<close>

definition handlerOf :: "world \<Rightarrow> string \<Rightarrow> nat option" where
  "handlerOf w name = (case xhrs w name of None \<Rightarrow> None | Some x \<Rightarrow> map_option hPromise (onload x))"


text \<open>
  The bookkeeping of the requests: no \<open>XMLHttpRequest\<close> has two requests in flight; the
  numbers handed out are below \<open>nextId\<close>; an object with a request in flight is between
  \<open>OPENED\<close> and \<open>LOADING\<close> and its \<open>onload\<close> handler settles a pending promise of the
  remote rule; two objects with requests in flight settle different promises.
\<close>

definition xhrInv :: "world \<Rightarrow> bool" where
  "xhrInv w =
     (distinct (map snd (network w))
      \<and> (\<forall>r \<in> set (network w). fst r < nextId w)
      \<and> (\<forall>p pr. promises w p = Some pr \<longrightarrow> p < nextId w)
      \<and> (\<forall>r \<in> set (network w). \<exists>x h pr. xhrs w (snd r) = Some x \<and> 0 < readyState x \<and> readyState x < 4
             \<and> onload x = Some h \<and> promises w (hPromise h) = Some pr \<and> pKind pr = Remote)
      \<and> (\<forall>r1 \<in> set (network w). \<forall>r2 \<in> set (network w).
             handlerOf w (snd r1) = handlerOf w (snd r2) \<longrightarrow> snd r1 = snd r2))"

definition remoteHandler :: "nat \<Rightarrow> string \<Rightarrow> nat \<Rightarrow> world \<Rightarrow> loadHandler" where
  \<comment> \<open>the handler \<open>remoteRule\<close> installs when called on element \<open>i\<close> for promise \<open>p\<close>\<close>
  "remoteHandler i attribute p w =
     \<lparr>hPromise = p,
      hReverse = (getAttribute (elements w ! i) (attribute @ ''-reverse'') = Some ''true''),
      hMsg = translate (cat w) ''remoteInvalid'', hTarget = i\<rparr>"

text \<open>
  A pending promise of the remote rule that no request in flight will settle: its
  request was aborted, or failed. \<open>keeps p w w'\<close>: from \<open>w\<close> to \<open>w'\<close> the promise stays so,
  as it was, and no callback has run for it.
\<close>

definition orphan :: "nat \<Rightarrow> world \<Rightarrow> bool" where
  "orphan p w =
     (p < nextId w
      \<and> (\<exists>pr. promises w p = Some pr \<and> pKind pr = Remote)
      \<and> (\<forall>r \<in> set (network w). handlerOf w (snd r) \<noteq> Some p))"

definition keeps :: "nat \<Rightarrow> world \<Rightarrow> world \<Rightarrow> bool" where
  "keeps p w w' =
     (orphan p w' \<and> promises w' p = promises w p
      \<and> filter (\<lambda>a. fst a = p) (applied w') = filter (\<lambda>a. fst a = p) (applied w))"



section \<open>The specification's resolution order, and the inputs of the examples\<close>

text \<open>
  What the specification says of the message resolver, in its words: the inline per-kind
  override attribute, then the inline global override attribute, then the catalog key of
  the kind with the capitalized type, then the catalog key of the kind; \<open>None\<close> stands for
  the platform's fallback message.
\<close>

definition chooseTemplateSpec :: "catalog \<Rightarrow> element \<Rightarrow> string \<Rightarrow> string option" where
  "chooseTemplateSpec c el validityType =
     (if hasAttribute el (inlineAttr validityType) then getAttribute el (inlineAttr validityType)
      else if hasAttribute el ''data-eager-error'' then getAttribute el ''data-eager-error''
      else (case templates c (specificKey el validityType) of
              Some m \<Rightarrow> Some m
            | None \<Rightarrow> templates c validityType))"

definition defaultOptions :: options where
  \<comment> \<open>\<open>EagerForm.defaultOptions\<close>\<close>
  "defaultOptions =
     \<lparr>localeName = ''en'', showSuccessState = True,
      revalidate = Some [''blur'', ''change'', ''input''], noTriggerOnTab = True,
      delayOpt = Map.empty, debounceOpt = [''blur'' \<mapsto> 100], validateWithoutName = False,
      captureSubmit = True, disableSubmit = True, captureReset = True\<rparr>"

definition enLocale :: catalog where
  \<comment> \<open>\<open>locales/en.js\<close>\<close>
  "enLocale =
     \<lparr>templates = map_of
        [(''badInput'', ''Please provide the correct input''),
         (''valueMissing'', ''Please fill out this field.''),
         (''valueMissingCheckbox'', ''Please check this box if you want to proceed.''),
         (''valueMissingRadio'', ''Please select one of these options.''),
         (''valueMissingSelect'', ''Please select one of these options.''),
         (''patternMismatch'', ''Please match the requested format''),
         (''typeMismatch'', ''Please match the requested type''),
         (''typeMismatchEmail'', ''Please enter an email address''),
         (''typeMismatchUrl'', ''Please enter an URL''),
         (''tooLong'', ''Please shorten this text to {maxlength} characters or less (you are currently using {count} characters).''),
         (''tooShort'', ''Please lengthen this text to {minlength} characters or more (you are currently using {count} characters).''),
         (''rangeOverflow'', ''Please enter a value that is no more than {max}.''),
         (''rangeUnderflow'', ''Please enter a value that is no less than {min}.''),
         (''stepMismatch'', ''Please provide a valid value''),
         (''remoteInvalid'', ''The field doesn't pass remote validation.''),
         (''valueNotEqual'', ''The values don't match'')],
      numbers = None\<rparr>"

definition textField :: "string \<Rightarrow> element" where
  \<comment> \<open>\<open><input type="text" id=n name=n>\<close>, empty and valid, nothing shown\<close>
  "textField n =
     \<lparr>elemId = n, tagName = ''INPUT'', etype = ''text'', hasCheckValidity = True,
      attrs = [''name'' \<mapsto> n], evalue = [], violated = [], customValidity = [],
      nativeMessage = [], classes = {}, parentClasses = {}, feedback = None, busy = None\<rparr>"

definition numberField :: element where
  \<comment> \<open>\<open><input type="number" name="qty" max="10">\<close> holding 12\<close>
  "numberField =
     (textField ''qty'')\<lparr>etype := ''number'', attrs := [''name'' \<mapsto> ''qty'', ''max'' \<mapsto> ''10''],
        evalue := [0x31, 0x32], violated := [''rangeOverflow''],
        nativeMessage := ''Value must be less than or equal to 10.''\<rparr>"

definition requiredField :: "string \<Rightarrow> element" where
  \<comment> \<open>a required text field left empty\<close>
  "requiredField n = (textField n)\<lparr>violated := [''valueMissing'']\<rparr>"

definition suppressedField :: "string \<Rightarrow> element" where
  \<comment> \<open>the same with the attribute \<open>novalidate\<close>, given no value\<close>
  "suppressedField n =
     (requiredField n)\<lparr>attrs := [''name'' \<mapsto> n, ''novalidate'' \<mapsto> []]\<rparr>"

definition twoKeyCatalog :: catalog where
  "twoKeyCatalog =
     \<lparr>templates = [''tooLong'' \<mapsto> ''generic'', ''tooLongText'' \<mapsto> ''specific''], numbers = None\<rparr>"

definition ownedForm :: formElement where
  \<comment> \<open>a form after \<open>new EagerForm(form)\<close> with the default options, as instance 1\<close>
  "ownedForm =
     \<lparr>listeners = [(''blur'', InputHandler 1, True), (''change'', InputHandler 1, False),
                   (''input'', InputHandler 1, False), (''submit'', SubmitHandler 1, False),
                   (''reset'', ResetHandler 1, False)],
      formNovalidate = Some ''true'', formEagerForm = Some 1\<rparr>"

definition defaultRules :: "(string \<times> ruleKind) list" where
  \<comment> \<open>the three calls of \<open>EagerForm.rule\<close> at the end of \<open>index.js\<close>\<close>
  "defaultRules = [(''match'', Custom), (''reference'', Custom), (''remote'', Remote)]"

definition freshWorld :: "element list \<Rightarrow> world" where
  \<comment> \<open>a new instance with the default options on a form with these controls and a submit button\<close>
  "freshWorld els =
     \<lparr>opts = defaultOptions, cat = enLocale, rules = defaultRules, elements = els,
      submitBtn = Some \<lparr>btnDisabled = False, btnClasses = {}\<rparr>,
      intervals = Map.empty, xhrs = Map.empty, timers = [], debounced = Map.empty,
      network = [], promises = Map.empty, clock = 0, nextId = 0, console = [],
      invoked = [], applied = [], aborted = []\<rparr>"

definition inputOn :: "nat \<Rightarrow> domEvent" where
  "inputOn i = \<lparr>evType = ''input'', evTarget = i, evKey = None\<rparr>"

definition blurOn :: "nat \<Rightarrow> domEvent" where
  "blurOn i = \<lparr>evType = ''blur'', evTarget = i, evKey = None\<rparr>"



definition uniqueField :: element where
  \<comment> \<open>a field with the attribute of a rule \<open>unique\<close> that the application has registered\<close>
  "uniqueField = (textField ''user'')\<lparr>attrs := [''name'' \<mapsto> ''user'', ''data-eager-unique'' \<mapsto> []]\<rparr>"

definition raceWorld :: world where
  "raceWorld = (freshWorld [uniqueField])\<lparr>rules := defaultRules @ [(''unique'', Custom)]\<rparr>"

definition remoteField :: element where
  \<comment> \<open>\<open><input type="text" id="user" name="user" data-eager-remote="/check">\<close>\<close>
  "remoteField = (textField ''user'')\<lparr>attrs := [''name'' \<mapsto> ''user'', ''data-eager-remote'' \<mapsto> ''/check'']\<rparr>"

definition remoteWorld :: world where
  "remoteWorld = freshWorld [remoteField]"

section \<open>Theorems: the Unicode length\<close>

lemma isLow_not_bmp: "isLow c \<Longrightarrow> \<not> isBmpScalar c"
  unfolding isLow_def isBmpScalar_def by (auto simp: word_le_nat_alt)

lemma isHigh_not_bmp: "isHigh c \<Longrightarrow> \<not> isBmpScalar c"
  unfolding isHigh_def isBmpScalar_def by (auto simp: word_le_nat_alt)

lemma isHigh_not_low: "isHigh c \<Longrightarrow> \<not> isLow c"
  unfolding isHigh_def isLow_def by (auto simp: word_le_nat_alt)

lemma code_unit_classes: "isBmpScalar c \<or> isHigh c \<or> isLow c"
  unfolding isHigh_def isLow_def isBmpScalar_def by (auto simp: word_le_nat_alt)

text \<open>
  A non-empty subject has a match at its start, so \<open>match\<close> never returns \<open>null\<close> where
  \<open>unicodeStrLen\<close> reads its length.
\<close>

lemma matchAll_nonempty: "s \<noteq> [] \<Longrightarrow> 0 < matchAll True s"
proof (cases s)
  case Nil
  assume "s \<noteq> []"
  with Nil show ?thesis by simp
next
  case (Cons c cs)
  have "matchAt True (c # cs) \<noteq> None"
    using code_unit_classes [of c] by (auto simp: matchAt_def)
  then show ?thesis
    using Cons by (auto split: option.splits)
qed

text \<open>On well-formed UTF-16 the function counts code points.\<close>

lemma matchAll_wellFormed: "wellFormed s \<Longrightarrow> matchAll b s = codePointCount s"
proof (induction s arbitrary: b rule: codePointCount.induct)
  case 1
  show ?case by simp
next
  case (2 c)
  then show ?case
    using code_unit_classes [of c] by (auto simp: matchAt_def nextIsLow_def)
next
  case (3 c d cs)
  then show ?case
    using code_unit_classes [of c]
    by (auto simp: matchAt_def nextIsLow_def isHigh_not_bmp isLow_not_bmp isHigh_not_low
        split: if_splits)
qed

lemma unicodeStrLen_wellFormed: "wellFormed s \<Longrightarrow> unicodeStrLen s = codePointCount s"
  by (simp add: unicodeStrLen_def matchAll_wellFormed)

lemma unicodeStrLen_surrogate_pair: "unicodeStrLen [0xD83D, 0xDE00] = 1"
  by code_simp

text \<open>
  C9. The claim is for every string value. On the value of the letter \<open>a\<close> followed by a
  lone low surrogate, \<open>unicodeStrLen\<close> returns 1: no alternative of the expression
  matches at the surrogate, which follows a code unit that the first alternative has
  already consumed. The value has two code points.
\<close>

theorem unicodeStrLen_lone_low_surrogate:
  "unicodeStrLen [0x61, 0xDC00] = 1 \<and> codePointCount [0x61, 0xDC00] = 2"
  by code_simp

section \<open>Theorems: the message resolver\<close>

text \<open>
  C7. For a number field with \<open>max="10"\<close> that overflows, the catalog's template
  \<open>Please enter a value that is no more than {max}.\<close> is rendered with the text
  \<open>undefined\<close> in the place of the attribute's value: the object \<open>data\<close> has no key
  \<open>max\<close> when the \<open>switch\<close> reads \<open>data.max\<close>.
\<close>

theorem getMessage_max_placeholder:
  "getMessage enLocale numberField ''rangeOverflow''
     = ''Please enter a value that is no more than undefined.''"
  by code_simp

text \<open>
  C8, as stated, fails: for the kind \<open>tooLong\<close> on a text field, with both keys in the
  catalog, the specification's order gives the template of \<open>tooLongText\<close> and
  \<open>getMessage\<close> returns the template of \<open>tooLong\<close>.
\<close>

theorem getMessage_precedence_counterexample:
  "chooseTemplateSpec twoKeyCatalog (textField ''a'') ''tooLong'' = Some ''specific''
   \<and> getMessage twoKeyCatalog (textField ''a'') ''tooLong'' = ''generic''"
  by code_simp

text \<open>
  C8, amended. Where no override attribute and no template that is consulted is the
  empty text: for the kinds \<open>valueMissing\<close>, \<open>typeMismatch\<close>, \<open>rangeOverflow\<close>,
  \<open>rangeUnderflow\<close> and \<open>badInput\<close>, \<open>getMessage\<close> resolves the text in the order of the
  specification (and substitutes the placeholders of what it found); for every other
  kind but \<open>customError\<close> the order is the same without the type-specific key; for
  \<open>customError\<close> the platform's message is returned as it is.
\<close>

theorem getMessage_precedence:
  assumes "attrs el (inlineAttr kind) \<noteq> Some []"
    and "attrs el ''data-eager-error'' \<noteq> Some []"
    and "templates c (specificKey el kind) \<noteq> Some []"
    and "templates c kind \<noteq> Some []"
    and "kind \<noteq> ''customError''"
  shows "getMessage c el kind =
           (case (if kind \<in> set typedKinds then chooseTemplateSpec c el kind
                  else if hasAttribute el (inlineAttr kind) then getAttribute el (inlineAttr kind)
                  else if hasAttribute el ''data-eager-error'' then getAttribute el ''data-eager-error''
                  else templates c kind) of
              None \<Rightarrow> validationMessage el
            | Some m \<Rightarrow> strtpl m (messageData c el))
         \<and> getMessage c el ''customError'' = validationMessage el"
proof -
  have generic: "translate c kind = templates c kind"
    using assms(4) by (auto simp: translate_def split: option.splits)
  have specific: "translate c (specificKey el kind) = templates c (specificKey el kind)"
    using assms(3) by (auto simp: translate_def split: option.splits)
  have "chooseTemplate c el kind =
          (if kind \<in> set typedKinds then chooseTemplateSpec c el kind
           else if hasAttribute el (inlineAttr kind) then getAttribute el (inlineAttr kind)
           else if hasAttribute el ''data-eager-error'' then getAttribute el ''data-eager-error''
           else templates c kind)"
    using assms(1,2)
    by (auto simp: chooseTemplate_def chooseTemplateSpec_def hasAttribute_def getAttribute_def
        generic specific Let_def split: option.splits)
  then show ?thesis
    using assms(5) by (simp add: getMessage_def)
qed

theorem getMessage_precedence_witness:
  "getMessage enLocale ((requiredField ''agree'')\<lparr>etype := ''checkbox''\<rparr>) ''valueMissing''
     = ''Please check this box if you want to proceed.''
   \<and> getMessage enLocale ((requiredField ''agree'')\<lparr>etype := ''checkbox''\<rparr>) ''customError'' = []"
proof -
  let ?el = "(requiredField ''agree'')\<lparr>etype := ''checkbox''\<rparr>"
  have a: "attrs ?el (inlineAttr ''valueMissing'') \<noteq> Some []" by code_simp
  have b: "attrs ?el ''data-eager-error'' \<noteq> Some []" by code_simp
  have c: "templates enLocale (specificKey ?el ''valueMissing'') \<noteq> Some []" by code_simp
  have d: "templates enLocale ''valueMissing'' \<noteq> Some []" by code_simp
  have e: "''valueMissing'' \<noteq> ''customError''" by simp
  have r: "(case (if ''valueMissing'' \<in> set typedKinds then chooseTemplateSpec enLocale ?el ''valueMissing''
                  else if hasAttribute ?el (inlineAttr ''valueMissing'') then getAttribute ?el (inlineAttr ''valueMissing'')
                  else if hasAttribute ?el ''data-eager-error'' then getAttribute ?el ''data-eager-error''
                  else templates enLocale ''valueMissing'') of
              None \<Rightarrow> validationMessage ?el
            | Some m \<Rightarrow> strtpl m (messageData enLocale ?el))
           = ''Please check this box if you want to proceed.''" by code_simp
  have v: "validationMessage ?el = []" by code_simp
  show ?thesis
    using getMessage_precedence [OF a b c d e] r v by simp
qed

section \<open>Theorems: the first error of the form\<close>

text \<open>
  C5. On a form whose first invalid field carries the suppress marker and whose second
  invalid field does not, \<open>getFirstError\<close> returns \<open>null\<close>: it looks at the first
  invalid element only. The first failing field that is neither suppressed nor unnamed
  is the second one.
\<close>

theorem getFirstError_stops_at_suppressed:
  "getFirstError defaultOptions [suppressedField ''a'', requiredField ''b''] = None
   \<and> firstErrorSpec defaultOptions [suppressedField ''a'', requiredField ''b''] = Some 1"
  by code_simp

section \<open>Theorems: one instance per form\<close>

text \<open>
  C10, as stated, fails: the constructor checks the locale before it looks at the form,
  so on a form that holds an instance, with a locale that is not loaded, it throws and
  returns no instance.
\<close>

theorem construct_existing_counterexample:
  "construct {''en''} 2 (defaultOptions\<lparr>localeName := ''fr''\<rparr>) ownedForm
     = Inl (Error ''The locale fr is not loaded.'')"
  by (simp add: construct_def defaultOptions_def)

text \<open>
  C10, amended. When the locale of the options is loaded, constructing an instance on a
  form that already holds one evaluates to the instance the form holds and leaves the
  form as it is: its listeners, its \<open>novalidate\<close> attribute and its \<open>EagerForm\<close> property
  are unchanged, so \<open>start()\<close> has not run again.
\<close>

theorem construct_existing:
  assumes "localeName op \<in> loaded"
    and "formEagerForm f = Some existing"
  shows "construct loaded this op f = Inr (existing, f)"
  using assms by (simp add: construct_def)

theorem construct_existing_witness:
  "localeName defaultOptions \<in> {''en''} \<and> formEagerForm ownedForm = Some 1
   \<and> construct {''en''} 2 defaultOptions ownedForm = Inr (1, ownedForm)"
proof -
  have a: "localeName defaultOptions \<in> {''en''}" by (simp add: defaultOptions_def)
  have b: "formEagerForm ownedForm = Some 1" by (simp add: ownedForm_def)
  show ?thesis using a b construct_existing [OF a b, of 2] by simp
qed

section \<open>Lemmas: what each operation leaves alone\<close>

lemma abort_frame:
  "timers (abort n w) = timers w" "intervals (abort n w) = intervals w"
  "debounced (abort n w) = debounced w" "clock (abort n w) = clock w"
  "nextId (abort n w) = nextId w" "elements (abort n w) = elements w"
  "promises (abort n w) = promises w" "opts (abort n w) = opts w" "cat (abort n w) = cat w"
  "rules (abort n w) = rules w" "submitBtn (abort n w) = submitBtn w"
  "invoked (abort n w) = invoked w" "applied (abort n w) = applied w" "console (abort n w) = console w"
  by (simp_all add: abort_def split: option.splits)

lemma xhrOpen_frame:
  "timers (xhrOpen n w) = timers w" "intervals (xhrOpen n w) = intervals w"
  "debounced (xhrOpen n w) = debounced w" "clock (xhrOpen n w) = clock w"
  "nextId (xhrOpen n w) = nextId w" "elements (xhrOpen n w) = elements w"
  "promises (xhrOpen n w) = promises w" "opts (xhrOpen n w) = opts w" "cat (xhrOpen n w) = cat w"
  "rules (xhrOpen n w) = rules w" "submitBtn (xhrOpen n w) = submitBtn w"
  "invoked (xhrOpen n w) = invoked w" "applied (xhrOpen n w) = applied w" "console (xhrOpen n w) = console w"
  "aborted (xhrOpen n w) = aborted w"
  by (simp_all add: xhrOpen_def split: option.splits)

lemma xhrSend_frame:
  "timers (xhrSend n w) = timers w" "intervals (xhrSend n w) = intervals w"
  "debounced (xhrSend n w) = debounced w" "clock (xhrSend n w) = clock w"
  "nextId (xhrSend n w) = Suc (nextId w)" "elements (xhrSend n w) = elements w"
  "promises (xhrSend n w) = promises w" "opts (xhrSend n w) = opts w" "cat (xhrSend n w) = cat w"
  "rules (xhrSend n w) = rules w" "submitBtn (xhrSend n w) = submitBtn w"
  "invoked (xhrSend n w) = invoked w" "applied (xhrSend n w) = applied w" "console (xhrSend n w) = console w"
  "aborted (xhrSend n w) = aborted w" "xhrs (xhrSend n w) = xhrs w"
  by (simp_all add: xhrSend_def)

lemma remoteRule_frame:
  "timers (remoteRule i a p w) = timers w" "intervals (remoteRule i a p w) = intervals w"
  "debounced (remoteRule i a p w) = debounced w" "clock (remoteRule i a p w) = clock w"
  "nextId (remoteRule i a p w) = Suc (nextId w)"
  "promises (remoteRule i a p w) = promises w" "opts (remoteRule i a p w) = opts w" "cat (remoteRule i a p w) = cat w"
  "rules (remoteRule i a p w) = rules w" "submitBtn (remoteRule i a p w) = submitBtn w"
  "invoked (remoteRule i a p w) = invoked w" "applied (remoteRule i a p w) = applied w" "console (remoteRule i a p w) = console w"
  "length (elements (remoteRule i a p w)) = length (elements w)"
  by (simp_all add: remoteRule_def Let_def xhrSend_frame xhrOpen_frame abort_frame split: option.splits)






lemma setTimeout_frame:
  "intervals (setTimeout a ms w) = intervals w" "debounced (setTimeout a ms w) = debounced w"
  "clock (setTimeout a ms w) = clock w" "elements (setTimeout a ms w) = elements w"
  "opts (setTimeout a ms w) = opts w" "xhrs (setTimeout a ms w) = xhrs w"
  "network (setTimeout a ms w) = network w" "promises (setTimeout a ms w) = promises w"
  "nextId (setTimeout a ms w) = Suc (nextId w)"
  "timers (setTimeout a ms w) = timers w @ [\<lparr>timerId = nextId w, due = clock w + ms, act = a\<rparr>]"
  "invoked (setTimeout a ms w) = invoked w" "applied (setTimeout a ms w) = applied w"
  by (simp_all add: setTimeout_def)

lemma clearTimeout_frame:
  "intervals (clearTimeout t w) = intervals w" "debounced (clearTimeout t w) = debounced w"
  "clock (clearTimeout t w) = clock w" "elements (clearTimeout t w) = elements w"
  "opts (clearTimeout t w) = opts w" "xhrs (clearTimeout t w) = xhrs w"
  "network (clearTimeout t w) = network w" "promises (clearTimeout t w) = promises w"
  "nextId (clearTimeout t w) = nextId w"
  "invoked (clearTimeout t w) = invoked w" "applied (clearTimeout t w) = applied w"
  "set (timers (clearTimeout t w)) \<subseteq> set (timers w)"
  by (auto simp: clearTimeout_def split: option.splits)

lemma debounce_frame:
  "intervals (debounce ms w) = intervals w" "timers (debounce ms w) = timers w"
  "clock (debounce ms w) = clock w" "elements (debounce ms w) = elements w"
  "opts (debounce ms w) = opts w" "xhrs (debounce ms w) = xhrs w"
  "network (debounce ms w) = network w" "promises (debounce ms w) = promises w"
  "nextId (debounce ms w) = Suc (nextId w)"
  "invoked (debounce ms w) = invoked w" "applied (debounce ms w) = applied w"
  by (simp_all add: debounce_def)

lemma settle_frame:
  "timers (settle p out w) = timers w" "intervals (settle p out w) = intervals w"
  "debounced (settle p out w) = debounced w" "clock (settle p out w) = clock w"
  "nextId (settle p out w) = nextId w" "xhrs (settle p out w) = xhrs w"
  "network (settle p out w) = network w" "console (settle p out w) = console w"
  "invoked (settle p out w) = invoked w" "opts (settle p out w) = opts w"
  "length (elements (settle p out w)) = length (elements w)"
  by (simp_all add: settle_def split: option.splits)



lemma xhrError_frame:
  "timers (xhrError n w) = timers w" "intervals (xhrError n w) = intervals w"
  "debounced (xhrError n w) = debounced w" "clock (xhrError n w) = clock w"
  "nextId (xhrError n w) = nextId w" "elements (xhrError n w) = elements w"
  "promises (xhrError n w) = promises w" "applied (xhrError n w) = applied w"
  "invoked (xhrError n w) = invoked w" "submitBtn (xhrError n w) = submitBtn w"
  "aborted (xhrError n w) = aborted w" "opts (xhrError n w) = opts w"
  by (simp_all add: xhrError_def split: option.splits)

lemma submitGate_frame:
  "timers (submitGate ev w) = timers w" "intervals (submitGate ev w) = intervals w"
  "debounced (submitGate ev w) = debounced w" "clock (submitGate ev w) = clock w"
  "nextId (submitGate ev w) = nextId w" "elements (submitGate ev w) = elements w"
  "opts (submitGate ev w) = opts w" "xhrs (submitGate ev w) = xhrs w"
  "network (submitGate ev w) = network w" "promises (submitGate ev w) = promises w"
  "invoked (submitGate ev w) = invoked w" "applied (submitGate ev w) = applied w"
  by (simp_all add: submitGate_def)

lemma makeCallback_frame:
  "timers (snd (makeCallback b w)) = timers w" "intervals (snd (makeCallback b w)) = intervals w"
  "clock (snd (makeCallback b w)) = clock w" "elements (snd (makeCallback b w)) = elements w"
  "opts (snd (makeCallback b w)) = opts w" "xhrs (snd (makeCallback b w)) = xhrs w"
  "network (snd (makeCallback b w)) = network w" "promises (snd (makeCallback b w)) = promises w"
  "invoked (snd (makeCallback b w)) = invoked w" "applied (snd (makeCallback b w)) = applied w"
  "nextId w \<le> nextId (snd (makeCallback b w))"
  by (simp_all add: makeCallback_def debounce_frame)

text \<open>\<open>handleInput\<close> past its three early returns, and its delayed branch.\<close>

lemma handleInput_unfold:
  assumes "evTarget ev < length (elements w)"
    and "\<not> (noTriggerOnTab (opts w) \<and> evKey ev = Some ''Tab'')"
    and "\<not> gateThrows ev w"
  shows "handleInput ev w =
           dispatch ev (delayOf (opts w) (elements w ! evTarget ev) (evType ev))
             (fst (makeCallback (bounceOf (opts w) (elements w ! evTarget ev) (evType ev)) (submitGate ev w)))
             (snd (makeCallback (bounceOf (opts w) (elements w ! evTarget ev) (evType ev)) (submitGate ev w)))"
  using assms
  by (auto simp: handleInput_def Let_def case_prod_beta submitGate_frame makeCallback_frame)

lemma dispatch_delayed:
  "positive delay \<Longrightarrow>
   dispatch ev delay cb w =
     setTimeout (Delayed (evType ev) (evTarget ev) cb) (millis delay)
       ((clearTimeout (intervals w (evType ev)) w)\<lparr>intervals := (intervals w)(evType ev \<mapsto> nextId w)\<rparr>)"
  by (simp add: dispatch_def Let_def clearTimeout_frame)

section \<open>Theorems: the scheduler\<close>

text \<open>
  C2. Three blur events on one field within 20 ms, with the default debounce of 100 ms
  for \<open>blur\<close>: \<open>handleInput\<close> wraps the callback in a new debounced function at every
  event, each of which is called once, so no call is coalesced with another. The pipeline
  is invoked three times, at 100, 110 and 120 ms, not once at 120 ms.
\<close>

theorem debounce_three_blurs:
  "bounceOf defaultOptions (textField ''a'') ''blur'' = Some 100
   \<and> invoked (run [Dom 0 (blurOn 0), Dom 10 (blurOn 0), Dom 20 (blurOn 0), Tick, Tick, Tick]
        (freshWorld [textField ''a'']))
      = [(100, 0), (110, 0), (120, 0)]"
  by code_simp

subsection \<open>The invariant of \<open>this.intervals\<close>\<close>

lemma schedInv_weaken:
  assumes "schedInv w"
    and "set (timers w') \<subseteq> set (timers w)" and "distinct (map timerId (timers w'))"
    and "intervals w' = intervals w" and "nextId w \<le> nextId w'"
  shows "schedInv w'"
  unfolding schedInv_def
proof (intro conjI ballI allI impI)
  fix t assume "t \<in> set (timers w')"
  then have "t \<in> set (timers w)" using assms(2) by blast
  then show "timerId t < nextId w'" using assms(1,5) unfolding schedInv_def by fastforce
next
  fix ty n assume "intervals w' ty = Some n"
  then show "n < nextId w'" using assms(1,4,5) unfolding schedInv_def by fastforce
next
  show "distinct (map timerId (timers w'))" by (rule assms(3))
next
  fix t ty target cb ty'
  assume t: "t \<in> set (timers w')" and a: "act t = Delayed ty target cb"
  from t have "t \<in> set (timers w)" using assms(2) by blast
  with a assms(1) have "intervals w ty' = Some (timerId t) \<longleftrightarrow> ty' = ty"
    unfolding schedInv_def by blast
  then show "intervals w' ty' = Some (timerId t) \<longleftrightarrow> ty' = ty" using assms(4) by simp
qed


lemma schedInv_cong:
  assumes "schedInv w" and "timers w' = timers w"
    and "intervals w' = intervals w" and "nextId w \<le> nextId w'"
  shows "schedInv w'"
proof (rule schedInv_weaken [OF assms(1)])
  show "set (timers w') \<subseteq> set (timers w)" using assms(2) by simp
  show "distinct (map timerId (timers w'))" using assms(1,2) by (simp add: schedInv_def)
qed (use assms in auto)




lemma schedInv_debounce: "schedInv w \<Longrightarrow> schedInv (debounce ms w)"
  by (erule schedInv_cong) (simp_all add: debounce_frame)




















section \<open>Theorems: the remote rule\<close>

subsection \<open>The invariant of the requests\<close>

lemma remoteRule_effect:
  "network (remoteRule i a p w)
     = filter (\<lambda>r. snd r \<noteq> requestName (elements w ! i)) (network w)
       @ [(nextId w, requestName (elements w ! i))]"
  "xhrs (remoteRule i a p w)
     = (xhrs w)(requestName (elements w ! i) \<mapsto> \<lparr>readyState = 1, onload = Some (remoteHandler i a p w)\<rparr>)"
  "elements (remoteRule i a p w) = (elements w)[i := (elements w ! i)\<lparr>busy := Some ''true''\<rparr>]"
  by (auto simp: remoteRule_def Let_def xhrSend_def xhrOpen_def abort_def remoteHandler_def
      split: option.splits)


lemma xhrInv_cong:
  assumes "xhrInv w" and "xhrs w' = xhrs w" and "network w' = network w"
    and "promises w' = promises w" and "nextId w \<le> nextId w'"
  shows "xhrInv w'"
proof -
  have h: "handlerOf w' = handlerOf w" using assms(2) by (simp add: handlerOf_def fun_eq_iff)
  have lt: "\<And>n. n < nextId w \<Longrightarrow> n < nextId w'" using assms(5) by simp
  show ?thesis
    using assms(1) unfolding xhrInv_def h assms(2,3,4)
    by (auto intro: lt)
qed

lemma xhrInv_addPromise:
  assumes "xhrInv w"
  shows "xhrInv (w\<lparr>promises := (promises w)(nextId w \<mapsto> pr), nextId := Suc (nextId w)\<rparr>)"
    (is "xhrInv ?w1")
proof -
  have h: "handlerOf ?w1 = handlerOf w" by (simp add: handlerOf_def fun_eq_iff)
  have fresh: "promises w (nextId w) = None"
    using assms unfolding xhrInv_def by (metis less_irrefl not_Some_eq)
  show ?thesis
    unfolding xhrInv_def h
  proof (intro conjI ballI allI impI)
    show "distinct (map snd (network ?w1))" using assms by (simp add: xhrInv_def)
  next
    fix r assume "r \<in> set (network ?w1)"
    then show "fst r < nextId ?w1" using assms by (auto simp: xhrInv_def less_Suc_eq)
  next
    fix p pr' assume "promises ?w1 p = Some pr'"
    then show "p < nextId ?w1" using assms by (auto simp: xhrInv_def less_Suc_eq split: if_splits)
  next
    fix r assume "r \<in> set (network ?w1)"
    then have "r \<in> set (network w)" by simp
    then obtain x h pr' where x: "xhrs w (snd r) = Some x" "0 < readyState x" "readyState x < 4"
      "onload x = Some h" "promises w (hPromise h) = Some pr'" "pKind pr' = Remote"
      using assms unfolding xhrInv_def by blast
    then have "hPromise h \<noteq> nextId w" using fresh by auto
    then have "promises ?w1 (hPromise h) = Some pr'" using x by simp
    then show "\<exists>x h pr. xhrs ?w1 (snd r) = Some x \<and> 0 < readyState x \<and> readyState x < 4
             \<and> onload x = Some h \<and> promises ?w1 (hPromise h) = Some pr \<and> pKind pr = Remote"
      using x by auto
  next
    fix r1 r2 assume "r1 \<in> set (network ?w1)" "r2 \<in> set (network ?w1)"
      "handlerOf w (snd r1) = handlerOf w (snd r2)"
    then show "snd r1 = snd r2" using assms by (simp add: xhrInv_def)
  qed
qed

lemma xhrInv_remoteRule:
  assumes "xhrInv w" and "promises w p = Some pr" and "pKind pr = Remote"
    and "\<forall>r \<in> set (network w). handlerOf w (snd r) \<noteq> Some p"
  shows "xhrInv (remoteRule i a p w)" (is "xhrInv ?w2")
proof -
  let ?name = "requestName (elements w ! i)"
  let ?x = "\<lparr>readyState = 1, onload = Some (remoteHandler i a p w)\<rparr>"
  have net: "network ?w2 = filter (\<lambda>r. snd r \<noteq> ?name) (network w) @ [(nextId w, ?name)]"
    by (rule remoteRule_effect)
  have xs: "xhrs ?w2 = (xhrs w)(?name \<mapsto> ?x)" by (rule remoteRule_effect)
  have pm: "promises ?w2 = promises w" by (rule remoteRule_frame)
  have nx: "nextId ?w2 = Suc (nextId w)" by (rule remoteRule_frame)
  have hn: "handlerOf ?w2 ?name = Some p" by (simp add: handlerOf_def xs remoteHandler_def)
  have ho: "n \<noteq> ?name \<Longrightarrow> handlerOf ?w2 n = handlerOf w n" for n
    by (simp add: handlerOf_def xs)
  show ?thesis
    unfolding xhrInv_def
  proof (intro conjI ballI allI impI)
    have "distinct (map snd (filter (\<lambda>r. snd r \<noteq> ?name) (network w)))"
      using assms(1) by (simp add: xhrInv_def distinct_map_filter)
    then show "distinct (map snd (network ?w2))" unfolding net by auto
  next
    fix r assume "r \<in> set (network ?w2)"
    then show "fst r < nextId ?w2" unfolding net nx using assms(1) by (auto simp: xhrInv_def less_Suc_eq)
  next
    fix q qr assume "promises ?w2 q = Some qr"
    then show "q < nextId ?w2" unfolding pm nx using assms(1) by (auto simp: xhrInv_def less_Suc_eq)
  next
    fix r assume r: "r \<in> set (network ?w2)"
    show "\<exists>x h pr. xhrs ?w2 (snd r) = Some x \<and> 0 < readyState x \<and> readyState x < 4
             \<and> onload x = Some h \<and> promises ?w2 (hPromise h) = Some pr \<and> pKind pr = Remote"
    proof (cases "snd r = ?name")
      case True
      then show ?thesis unfolding xs pm using assms(2,3) by (simp add: remoteHandler_def)
    next
      case False
      then have "r \<in> set (network w)" using r unfolding net by auto
      then show ?thesis unfolding xs pm using assms(1) False by (simp add: xhrInv_def)
    qed
  next
    fix r1 r2 assume r: "r1 \<in> set (network ?w2)" "r2 \<in> set (network ?w2)"
      and e: "handlerOf ?w2 (snd r1) = handlerOf ?w2 (snd r2)"
    have old: "r \<in> set (network w)" if "r \<in> set (network ?w2)" "snd r \<noteq> ?name" for r
      using that unfolding net by auto
    show "snd r1 = snd r2"
    proof (cases "snd r1 = ?name")
      case True
      show ?thesis
      proof (cases "snd r2 = ?name")
        case False
        then have "handlerOf w (snd r2) = Some p" using e True hn ho by simp
        then show ?thesis using assms(4) old [OF r(2) False] by blast
      qed (simp add: True)
    next
      case False
      show ?thesis
      proof (cases "snd r2 = ?name")
        case True
        then have "handlerOf w (snd r1) = Some p" using e False hn ho by simp
        then show ?thesis using assms(4) old [OF r(1) False] by blast
      next
        case f2: False
        then have "handlerOf w (snd r1) = handlerOf w (snd r2)" using e False ho by simp
        then show ?thesis using assms(1) old [OF r(1) False] old [OF r(2) f2]
          unfolding xhrInv_def by blast
      qed
    qed
  qed
qed

lemma xhrInv_launch:
  assumes "xhrInv w"
  shows "xhrInv (launch ps i rule w)"
proof (cases "hasAttribute (elements w ! i) (ruleAttribute (fst rule))")
  case False
  then show ?thesis using assms by (simp add: launch_def)
next
  case True
  let ?pr = "\<lparr>pTarget = i, pAttr = ruleAttribute (fst rule), pKind = snd rule, pPass = ps\<rparr>"
  let ?w1 = "w\<lparr>promises := (promises w)(nextId w \<mapsto> ?pr), nextId := Suc (nextId w)\<rparr>"
  have 1: "xhrInv ?w1" using assms by (rule xhrInv_addPromise)
  show ?thesis
  proof (cases "snd rule")
    case Custom
    then show ?thesis using True 1 by (simp add: launch_def Let_def)
  next
    case Remote
    have fresh: "\<forall>r \<in> set (network ?w1). handlerOf ?w1 (snd r) \<noteq> Some (nextId w)"
    proof
      fix r assume "r \<in> set (network ?w1)"
      then have "r \<in> set (network w)" by simp
      then obtain x h pr' where x: "xhrs w (snd r) = Some x" "onload x = Some h"
        "promises w (hPromise h) = Some pr'"
        using assms unfolding xhrInv_def by blast
      then have "hPromise h < nextId w" using assms unfolding xhrInv_def by blast
      then show "handlerOf ?w1 (snd r) \<noteq> Some (nextId w)" using x by (simp add: handlerOf_def)
    qed
    have pp: "promises ?w1 (nextId w) = Some ?pr" by simp
    have pk: "pKind ?pr = Remote" using Remote by simp
    have "xhrInv (remoteRule i (ruleAttribute (fst rule)) (nextId w) ?w1)"
      using 1 pp pk fresh by (rule xhrInv_remoteRule)
    then show ?thesis using True Remote by (simp add: launch_def Let_def)
  qed
qed

lemma xhrInv_fold:
  assumes "\<And>x v. xhrInv v \<Longrightarrow> xhrInv (f x v)"
  shows "xhrInv w \<Longrightarrow> xhrInv (fold f xs w)"
  by (induction xs arbitrary: w) (simp_all add: assms)

lemma xhrInv_validateField: "xhrInv w \<Longrightarrow> xhrInv (validateField i w)"
proof -
  assume inv: "xhrInv w"
  have a: "xhrInv (w\<lparr>invoked := iv\<rparr>)" for iv using inv by (rule xhrInv_cong) simp_all
  have b: "xhrInv (w\<lparr>invoked := iv, elements := es\<rparr>)" for iv es using inv by (rule xhrInv_cong) simp_all
  have c: "xhrInv (fold (launch ps i) rs (w\<lparr>invoked := iv\<rparr>))" for ps rs iv
    using a by (rule xhrInv_fold [rotated]) (rule xhrInv_launch)
  have d: "xhrInv (fold (launch ps i) rs (w\<lparr>invoked := iv, elements := es\<rparr>))" for ps rs iv es
    using b by (rule xhrInv_fold [rotated]) (rule xhrInv_launch)
  show ?thesis
    unfolding validateField_def Let_def using a b c d by simp
qed

lemma xhrInv_callDebounced: "xhrInv w \<Longrightarrow> xhrInv (callDebounced d target w)"
  by (erule xhrInv_cong)
     (simp_all add: callDebounced_def Let_def setTimeout_frame clearTimeout_frame split: option.splits)

lemma xhrInv_callCallback: "xhrInv w \<Longrightarrow> xhrInv (callCallback cb target w)"
  by (cases cb) (simp_all add: callCallback_def xhrInv_validateField xhrInv_callDebounced)

lemma xhrInv_dispatch: "xhrInv w \<Longrightarrow> xhrInv (dispatch ev delay cb w)"
proof (cases "positive delay")
  case True
  assume "xhrInv w"
  then show ?thesis
    unfolding dispatch_delayed [OF True]
    by (rule xhrInv_cong) (simp_all add: setTimeout_frame clearTimeout_frame)
next
  case False
  assume "xhrInv w"
  then show ?thesis using False by (simp add: dispatch_def xhrInv_callCallback)
qed

lemma xhrInv_handleInput:
  assumes "xhrInv w"
  shows "xhrInv (handleInput ev w)"
proof (cases "evTarget ev < length (elements w)
              \<and> \<not> (noTriggerOnTab (opts w) \<and> evKey ev = Some ''Tab'') \<and> \<not> gateThrows ev w")
  case True
  have "xhrInv (submitGate ev w)" using assms by (rule xhrInv_cong) (simp_all add: submitGate_frame)
  then have "xhrInv (snd (makeCallback b (submitGate ev w)))" for b
    by (rule xhrInv_cong) (simp_all add: makeCallback_frame)
  then show ?thesis using True by (simp add: handleInput_unfold xhrInv_dispatch)
next
  case False
  then show ?thesis using assms by (auto simp: handleInput_def)
qed

lemma xhrInv_fire:
  assumes "xhrInv w"
  shows "xhrInv (fire t w)"
proof -
  let ?w1 = "w\<lparr>timers := filter (\<lambda>x. timerId x \<noteq> timerId t) (timers w),
                 clock := max (clock w) (due t)\<rparr>"
  have 1: "xhrInv ?w1" using assms by (rule xhrInv_cong) simp_all
  show ?thesis
  proof (cases "act t")
    case (Delayed ty target cb)
    then show ?thesis using xhrInv_callCallback [OF 1] by (simp add: fire_def)
  next
    case (Trailing d)
    show ?thesis
    proof (cases "debounced ?w1 d")
      case None
      then show ?thesis using Trailing 1 by (simp add: fire_def)
    next
      case (Some f)
      let ?w2 = "?w1\<lparr>debounced := (debounced ?w1)(d \<mapsto> f\<lparr>pendingTimer := None, lastArg := None\<rparr>)\<rparr>"
      have 2: "xhrInv ?w2" using 1 by (rule xhrInv_cong) simp_all
      have "xhrInv (validateField target ?w2)" for target
        using 2 by (rule xhrInv_validateField)
      then show ?thesis using Trailing Some 2 by (simp add: fire_def Let_def split: option.splits)
    qed
  qed
qed

lemma xhrInv_settle:
  assumes "xhrInv w" and "\<forall>r \<in> set (network w). handlerOf w (snd r) \<noteq> Some p"
  shows "xhrInv (settle p out w)"
proof (cases "promises w p")
  case None
  then show ?thesis using assms by (simp add: settle_def)
next
  case (Some pr)
  let ?w' = "settle p out w"
  have net: "network ?w' = network w" and xs: "xhrs ?w' = xhrs w" and nx: "nextId ?w' = nextId w"
    by (simp_all add: settle_frame)
  have pm: "promises ?w' = (promises w)(p := None)" using Some by (simp add: settle_def)
  have h: "handlerOf ?w' = handlerOf w" by (simp add: handlerOf_def fun_eq_iff xs)
  show ?thesis
    unfolding xhrInv_def h net xs nx pm
  proof (intro conjI ballI allI impI)
    show "distinct (map snd (network w))" using assms(1) by (simp add: xhrInv_def)
  next
    fix r assume "r \<in> set (network w)"
    then show "fst r < nextId w" using assms(1) by (simp add: xhrInv_def)
  next
    fix q qr assume "((promises w)(p := None)) q = Some qr"
    then show "q < nextId w" using assms(1) by (auto simp: xhrInv_def split: if_splits)
  next
    fix r assume r: "r \<in> set (network w)"
    then obtain x h pr' where x: "xhrs w (snd r) = Some x" "0 < readyState x" "readyState x < 4"
      "onload x = Some h" "promises w (hPromise h) = Some pr'" "pKind pr' = Remote"
      using assms(1) unfolding xhrInv_def by blast
    then have "handlerOf w (snd r) = Some (hPromise h)" by (simp add: handlerOf_def)
    then have "hPromise h \<noteq> p" using assms(2) r by auto
    then show "\<exists>x h pr. xhrs w (snd r) = Some x \<and> 0 < readyState x \<and> readyState x < 4
             \<and> onload x = Some h \<and> ((promises w)(p := None)) (hPromise h) = Some pr \<and> pKind pr = Remote"
      using x by auto
  next
    fix r1 r2 assume "r1 \<in> set (network w)" "r2 \<in> set (network w)"
      "handlerOf w (snd r1) = handlerOf w (snd r2)"
    then show "snd r1 = snd r2" using assms(1) by (simp add: xhrInv_def)
  qed
qed

lemma xhrInv_settleCustom:
  assumes "xhrInv w"
  shows "xhrInv (settleCustom p out w)"
proof (cases "promises w p")
  case None
  then show ?thesis using assms by (simp add: settleCustom_def)
next
  case (Some pr)
  show ?thesis
  proof (cases "pKind pr")
    case Remote
    then show ?thesis using Some assms by (simp add: settleCustom_def)
  next
    case Custom
    have "\<forall>r \<in> set (network w). handlerOf w (snd r) \<noteq> Some p"
    proof
      fix r assume "r \<in> set (network w)"
      then obtain x h pr' where "xhrs w (snd r) = Some x" "onload x = Some h"
        "promises w (hPromise h) = Some pr'" "pKind pr' = Remote"
        using assms unfolding xhrInv_def by blast
      then show "handlerOf w (snd r) \<noteq> Some p" using Some Custom by (auto simp: handlerOf_def)
    qed
    then have "xhrInv (settle p out w)" using assms by (simp add: xhrInv_settle)
    then show ?thesis using Some Custom by (simp add: settleCustom_def)
  qed
qed

text \<open>A request ends: by a response or by a transport failure.\<close>

lemma xhrInv_done:
  assumes "xhrInv w" and "xhrs w name = Some x"
  shows "xhrInv (w\<lparr>xhrs := (xhrs w)(name \<mapsto> x\<lparr>readyState := 4\<rparr>),
                   network := filter (\<lambda>r. snd r \<noteq> name) (network w)\<rparr>)" (is "xhrInv ?w'")
proof -
  have h: "handlerOf ?w' = handlerOf w" using assms(2) by (auto simp: handlerOf_def fun_eq_iff)
  show ?thesis
    unfolding xhrInv_def h
  proof (intro conjI ballI allI impI)
    show "distinct (map snd (network ?w'))" using assms(1) by (simp add: xhrInv_def distinct_map_filter)
  next
    fix r assume "r \<in> set (network ?w')"
    then show "fst r < nextId ?w'" using assms(1) by (simp add: xhrInv_def)
  next
    fix q qr assume "promises ?w' q = Some qr"
    then show "q < nextId ?w'" using assms(1) by (auto simp: xhrInv_def)
  next
    fix r assume r: "r \<in> set (network ?w')"
    then have "r \<in> set (network w)" "snd r \<noteq> name" by auto
    then show "\<exists>x h pr. xhrs ?w' (snd r) = Some x \<and> 0 < readyState x \<and> readyState x < 4
             \<and> onload x = Some h \<and> promises ?w' (hPromise h) = Some pr \<and> pKind pr = Remote"
      using assms(1) by (simp add: xhrInv_def)
  next
    fix r1 r2 assume "r1 \<in> set (network ?w')" "r2 \<in> set (network ?w')"
      "handlerOf w (snd r1) = handlerOf w (snd r2)"
    then show "snd r1 = snd r2" using assms(1) by (simp add: xhrInv_def)
  qed
qed

lemma others_not_handler:
  assumes "xhrInv w" and "r0 \<in> set (network w)" and "snd r0 = name"
  shows "\<forall>r \<in> set (filter (\<lambda>r. snd r \<noteq> name) (network w)). handlerOf w (snd r) \<noteq> handlerOf w name"
proof
  fix r assume "r \<in> set (filter (\<lambda>r. snd r \<noteq> name) (network w))"
  then have r: "r \<in> set (network w)" "snd r \<noteq> name" by auto
  show "handlerOf w (snd r) \<noteq> handlerOf w name"
  proof
    assume "handlerOf w (snd r) = handlerOf w name"
    then have "handlerOf w (snd r) = handlerOf w (snd r0)" using assms(3) by simp
    then have "snd r = snd r0" using assms(1,2) r(1) unfolding xhrInv_def by blast
    then show False using r(2) assms(3) by simp
  qed
qed

lemma xhrInv_xhrError: "xhrInv w \<Longrightarrow> xhrInv (xhrError name w)"
proof (cases "xhrs w name")
  case None
  assume "xhrInv w"
  then show ?thesis using None by (simp add: xhrError_def)
next
  case (Some x)
  assume inv: "xhrInv w"
  have "xhrInv (w\<lparr>xhrs := (xhrs w)(name \<mapsto> x\<lparr>readyState := 4\<rparr>),
                  network := filter (\<lambda>r. snd r \<noteq> name) (network w),
                  console := console w @ [''0 '']\<rparr>)"
    using xhrInv_done [OF inv Some] by (rule xhrInv_cong) simp_all
  then show ?thesis using Some inv by (simp add: xhrError_def)
qed

lemma xhrInv_xhrLoad:
  assumes inv: "xhrInv w"
  shows "xhrInv (xhrLoad name st w)"
proof (cases "xhrs w name")
  case None
  then show ?thesis using inv by (simp add: xhrLoad_def)
next
  case (Some x)
  show ?thesis
  proof (cases "name \<in> snd ` set (network w)")
    case False
    then show ?thesis using inv Some by (simp add: xhrLoad_def)
  next
    case True
    then obtain r0 where r0: "r0 \<in> set (network w)" "snd r0 = name" by auto
    let ?w1 = "w\<lparr>xhrs := (xhrs w)(name \<mapsto> x\<lparr>readyState := 4\<rparr>),
                   network := filter (\<lambda>r. snd r \<noteq> name) (network w)\<rparr>"
    have 1: "xhrInv ?w1" using inv Some by (rule xhrInv_done)
    show ?thesis
    proof (cases "onload x")
      case None
      then show ?thesis using Some True 1 by (simp add: xhrLoad_def Let_def)
    next
      case (Some h)
      let ?w2 = "?w1\<lparr>elements := (elements ?w1)[hTarget h :=
                        (elements ?w1 ! hTarget h)\<lparr>busy := Some ''false''\<rparr>]\<rparr>"
      have 2: "xhrInv ?w2" using 1 by (rule xhrInv_cong) simp_all
      have hw: "handlerOf w name = Some (hPromise h)"
        using \<open>xhrs w name = Some x\<close> Some by (simp add: handlerOf_def)
      have h2: "handlerOf ?w2 = handlerOf w"
        using \<open>xhrs w name = Some x\<close> by (auto simp: handlerOf_def fun_eq_iff)
      have "\<forall>r \<in> set (network ?w2). handlerOf ?w2 (snd r) \<noteq> Some (hPromise h)"
        unfolding h2 using others_not_handler [OF inv r0] hw by simp
      then have "xhrInv (settle (hPromise h) out ?w2)" for out
        using 2 by (simp add: xhrInv_settle)
      then show ?thesis
        using \<open>xhrs w name = Some x\<close> True Some by (simp add: xhrLoad_def Let_def)
    qed
  qed
qed

lemma xhrInv_step: "xhrInv w \<Longrightarrow> xhrInv (step e w)"
proof (cases e)
  case (Dom t ev)
  assume "xhrInv w"
  then have "xhrInv (w\<lparr>clock := max (clock w) t\<rparr>)" by (rule xhrInv_cong) simp_all
  then show ?thesis using Dom by (simp add: xhrInv_handleInput)
next
  case Tick
  assume "xhrInv w"
  then show ?thesis using Tick by (simp add: tick_def xhrInv_fire split: option.splits)
next
  case (Settle p out)
  assume "xhrInv w"
  then show ?thesis using Settle by (simp add: xhrInv_settleCustom)
next
  case (Load n st)
  assume "xhrInv w"
  then show ?thesis using Load by (simp add: xhrInv_xhrLoad)
next
  case (NetError n)
  assume "xhrInv w"
  then show ?thesis using NetError by (simp add: xhrInv_xhrError)
next
  case Validate
  assume "xhrInv w"
  then have "xhrInv (validate w)"
    unfolding validate_def by (rule xhrInv_fold [rotated]) (simp add: xhrInv_validateField)
  then show ?thesis using Validate by simp
qed

lemma xhrInv_run: "xhrInv w \<Longrightarrow> xhrInv (run evs w)"
  unfolding run_def by (induction evs arbitrary: w) (simp_all add: xhrInv_step)

lemma xhrInv_initial: "network w = [] \<Longrightarrow> promises w = Map.empty \<Longrightarrow> xhrInv w"
  by (simp add: xhrInv_def)

subsection \<open>A promise whose request is gone stays pending\<close>

lemma keeps_refl: "orphan p w \<Longrightarrow> keeps p w w"
  by (simp add: keeps_def)

lemma keeps_trans: "keeps p w w1 \<Longrightarrow> keeps p w1 w2 \<Longrightarrow> keeps p w w2"
  by (simp add: keeps_def)

lemma keeps_cong:
  assumes "orphan p w" and "xhrs w' = xhrs w" and "network w' = network w"
    and "promises w' = promises w" and "nextId w \<le> nextId w'" and "applied w' = applied w"
  shows "keeps p w w'"
proof -
  have h: "handlerOf w' = handlerOf w" using assms(2) by (simp add: handlerOf_def fun_eq_iff)
  show ?thesis using assms unfolding keeps_def orphan_def h by auto
qed

lemma keeps_launch:
  assumes "orphan p w"
  shows "keeps p w (launch ps i rule w)"
proof (cases "hasAttribute (elements w ! i) (ruleAttribute (fst rule))")
  case False
  then show ?thesis using assms by (simp add: launch_def keeps_def)
next
  case True
  let ?pr = "\<lparr>pTarget = i, pAttr = ruleAttribute (fst rule), pKind = snd rule, pPass = ps\<rparr>"
  let ?w1 = "w\<lparr>promises := (promises w)(nextId w \<mapsto> ?pr), nextId := Suc (nextId w)\<rparr>"
  have ne: "p \<noteq> nextId w" using assms by (auto simp: orphan_def)
  have h1: "handlerOf ?w1 = handlerOf w" by (simp add: handlerOf_def fun_eq_iff)
  have 1: "keeps p w ?w1"
    using assms ne unfolding keeps_def orphan_def h1 by auto
  show ?thesis
  proof (cases "snd rule")
    case Custom
    then show ?thesis using True 1 by (simp add: launch_def Let_def)
  next
    case Remote
    let ?a = "ruleAttribute (fst rule)"
    let ?w2 = "remoteRule i ?a (nextId w) ?w1"
    let ?name = "requestName (elements ?w1 ! i)"
    have net: "network ?w2 = filter (\<lambda>r. snd r \<noteq> ?name) (network ?w1) @ [(nextId ?w1, ?name)]"
      by (rule remoteRule_effect)
    have xs: "xhrs ?w2 = (xhrs ?w1)(?name \<mapsto> \<lparr>readyState = 1, onload = Some (remoteHandler i ?a (nextId w) ?w1)\<rparr>)"
      by (rule remoteRule_effect)
    have pm: "promises ?w2 = promises ?w1" by (rule remoteRule_frame)
    have nx: "nextId ?w2 = Suc (nextId ?w1)" by (rule remoteRule_frame)
    have hn: "handlerOf ?w2 ?name = Some (nextId w)"
      unfolding handlerOf_def xs by (simp add: remoteHandler_def)
    have ho: "n \<noteq> ?name \<Longrightarrow> handlerOf ?w2 n = handlerOf w n" for n
      unfolding handlerOf_def xs by simp
    have o1: "orphan p ?w1" using 1 by (simp add: keeps_def)
    have "\<forall>r \<in> set (network ?w2). handlerOf ?w2 (snd r) \<noteq> Some p"
    proof
      fix r assume r: "r \<in> set (network ?w2)"
      show "handlerOf ?w2 (snd r) \<noteq> Some p"
      proof (cases "snd r = ?name")
        case True
        then show ?thesis using hn ne by simp
      next
        case False
        then have "r \<in> set (network w)" using r unfolding net by auto
        then show ?thesis using assms False ho by (simp add: orphan_def)
      qed
    qed
    moreover have "applied ?w2 = applied ?w1" by (rule remoteRule_frame)
    ultimately have "keeps p ?w1 ?w2"
      using o1 unfolding keeps_def orphan_def pm nx by auto
    then have "keeps p w ?w2" using 1 keeps_trans by blast
    then show ?thesis using True Remote by (simp add: launch_def Let_def)
  qed
qed

lemma keeps_fold:
  assumes "\<And>x v. orphan p v \<Longrightarrow> keeps p v (f x v)"
  shows "orphan p w \<Longrightarrow> keeps p w (fold f xs w)"
proof (induction xs arbitrary: w)
  case Nil
  then show ?case by (simp add: keeps_refl)
next
  case (Cons x xs)
  have 1: "keeps p w (f x w)" using Cons.prems by (rule assms)
  then have "orphan p (f x w)" by (simp add: keeps_def)
  then have "keeps p (f x w) (fold f xs (f x w))" by (rule Cons.IH)
  then show ?case using 1 keeps_trans by fastforce
qed

lemma keeps_validateField:
  assumes "orphan p w"
  shows "keeps p w (validateField i w)"
proof -
  have a: "keeps p w (w\<lparr>invoked := iv\<rparr>)" for iv using assms by (rule keeps_cong) simp_all
  have b: "keeps p w (w\<lparr>invoked := iv, elements := es\<rparr>)" for iv es using assms by (rule keeps_cong) simp_all
  have c: "keeps p w (fold (launch ps i) rs (w\<lparr>invoked := iv\<rparr>))" for ps rs iv
  proof -
    have "orphan p (w\<lparr>invoked := iv\<rparr>)" using a by (simp add: keeps_def)
    then have "keeps p (w\<lparr>invoked := iv\<rparr>) (fold (launch ps i) rs (w\<lparr>invoked := iv\<rparr>))"
      by (rule keeps_fold [rotated]) (rule keeps_launch)
    then show ?thesis using a keeps_trans by blast
  qed
  have d: "keeps p w (fold (launch ps i) rs (w\<lparr>invoked := iv, elements := es\<rparr>))" for ps rs iv es
  proof -
    have "orphan p (w\<lparr>invoked := iv, elements := es\<rparr>)" using b by (simp add: keeps_def)
    then have "keeps p (w\<lparr>invoked := iv, elements := es\<rparr>)
                 (fold (launch ps i) rs (w\<lparr>invoked := iv, elements := es\<rparr>))"
      by (rule keeps_fold [rotated]) (rule keeps_launch)
    then show ?thesis using b keeps_trans by blast
  qed
  show ?thesis
    unfolding validateField_def Let_def using a b c d by simp
qed

lemma keeps_callDebounced: "orphan p w \<Longrightarrow> keeps p w (callDebounced d target w)"
  by (erule keeps_cong)
     (simp_all add: callDebounced_def Let_def setTimeout_frame clearTimeout_frame split: option.splits)

lemma keeps_callCallback: "orphan p w \<Longrightarrow> keeps p w (callCallback cb target w)"
  by (cases cb) (simp_all add: callCallback_def keeps_validateField keeps_callDebounced)

lemma keeps_dispatch: "orphan p w \<Longrightarrow> keeps p w (dispatch ev delay cb w)"
proof (cases "positive delay")
  case True
  assume "orphan p w"
  then show ?thesis
    unfolding dispatch_delayed [OF True]
    by (rule keeps_cong) (simp_all add: setTimeout_frame clearTimeout_frame)
next
  case False
  assume "orphan p w"
  then show ?thesis using False by (simp add: dispatch_def keeps_callCallback)
qed

lemma keeps_handleInput:
  assumes "orphan p w"
  shows "keeps p w (handleInput ev w)"
proof (cases "evTarget ev < length (elements w)
              \<and> \<not> (noTriggerOnTab (opts w) \<and> evKey ev = Some ''Tab'') \<and> \<not> gateThrows ev w")
  case True
  let ?b = "bounceOf (opts w) (elements w ! evTarget ev) (evType ev)"
  have 1: "keeps p w (submitGate ev w)" using assms by (rule keeps_cong) (simp_all add: submitGate_frame)
  then have "orphan p (submitGate ev w)" by (simp add: keeps_def)
  then have "keeps p (submitGate ev w) (snd (makeCallback ?b (submitGate ev w)))"
    by (rule keeps_cong) (simp_all add: makeCallback_frame)
  then have 2: "keeps p w (snd (makeCallback ?b (submitGate ev w)))" using 1 keeps_trans by blast
  then have "orphan p (snd (makeCallback ?b (submitGate ev w)))" by (simp add: keeps_def)
  then have "keeps p (snd (makeCallback ?b (submitGate ev w))) (handleInput ev w)"
    using True by (simp add: handleInput_unfold keeps_dispatch)
  then show ?thesis using 2 keeps_trans by blast
next
  case False
  then show ?thesis using assms by (auto simp: handleInput_def keeps_refl)
qed

lemma keeps_fire:
  assumes "orphan p w"
  shows "keeps p w (fire t w)"
proof -
  let ?w1 = "w\<lparr>timers := filter (\<lambda>x. timerId x \<noteq> timerId t) (timers w),
                 clock := max (clock w) (due t)\<rparr>"
  have 1: "keeps p w ?w1" using assms by (rule keeps_cong) simp_all
  then have o1: "orphan p ?w1" by (simp add: keeps_def)
  show ?thesis
  proof (cases "act t")
    case (Delayed ty target cb)
    have "keeps p ?w1 (callCallback cb target ?w1)" using o1 by (rule keeps_callCallback)
    then have "keeps p w (callCallback cb target ?w1)" using 1 keeps_trans by blast
    then show ?thesis using Delayed by (simp add: fire_def)
  next
    case (Trailing d)
    show ?thesis
    proof (cases "debounced ?w1 d")
      case None
      then show ?thesis using Trailing 1 by (simp add: fire_def)
    next
      case (Some f)
      let ?w2 = "?w1\<lparr>debounced := (debounced ?w1)(d \<mapsto> f\<lparr>pendingTimer := None, lastArg := None\<rparr>)\<rparr>"
      have 2: "keeps p w ?w2" using assms by (rule keeps_cong) simp_all
      then have "orphan p ?w2" by (simp add: keeps_def)
      then have "keeps p ?w2 (validateField target ?w2)" for target by (rule keeps_validateField)
      then have "keeps p w (validateField target ?w2)" for target using 2 keeps_trans by blast
      then show ?thesis using Trailing Some 2 by (simp add: fire_def Let_def split: option.splits)
    qed
  qed
qed

lemma keeps_settle:
  assumes "orphan p w" and "q \<noteq> p"
  shows "keeps p w (settle q out w)"
proof (cases "promises w q")
  case None
  then show ?thesis using assms by (simp add: settle_def keeps_refl)
next
  case (Some pr)
  have h: "handlerOf (settle q out w) = handlerOf w"
    by (simp add: handlerOf_def fun_eq_iff settle_frame)
  have pm: "promises (settle q out w) = (promises w)(q := None)" using Some by (simp add: settle_def)
  have ap: "applied (settle q out w) = applied w @ [(q, out)]" using Some by (simp add: settle_def)
  show ?thesis
    using assms unfolding keeps_def orphan_def h pm ap by (simp add: settle_frame)
qed

lemma keeps_settleCustom:
  assumes "orphan p w"
  shows "keeps p w (settleCustom q out w)"
proof (cases "q = p")
  case True
  then show ?thesis using assms by (auto simp: settleCustom_def orphan_def keeps_refl)
next
  case False
  then show ?thesis using assms
    by (auto simp: settleCustom_def keeps_settle keeps_refl split: option.splits)
qed

lemma keeps_xhrError:
  assumes "orphan p w"
  shows "keeps p w (xhrError name w)"
proof (cases "xhrs w name")
  case None
  then show ?thesis using assms by (simp add: xhrError_def keeps_refl)
next
  case (Some x)
  have h: "handlerOf (xhrError name w) = handlerOf w"
    using Some by (auto simp: handlerOf_def fun_eq_iff xhrError_def)
  have "set (network (xhrError name w)) \<subseteq> set (network w)"
    using Some by (auto simp: xhrError_def)
  then show ?thesis
    using assms unfolding keeps_def orphan_def h by (auto simp: xhrError_frame)
qed

lemma keeps_xhrLoad:
  assumes "orphan p w"
  shows "keeps p w (xhrLoad name st w)"
proof (cases "xhrs w name")
  case None
  then show ?thesis using assms by (simp add: xhrLoad_def keeps_refl)
next
  case (Some x)
  show ?thesis
  proof (cases "name \<in> snd ` set (network w)")
    case False
    then show ?thesis using assms Some by (simp add: xhrLoad_def keeps_refl)
  next
    case True
    let ?w1 = "w\<lparr>xhrs := (xhrs w)(name \<mapsto> x\<lparr>readyState := 4\<rparr>),
                   network := filter (\<lambda>r. snd r \<noteq> name) (network w)\<rparr>"
    have h1: "handlerOf ?w1 = handlerOf w" using Some by (auto simp: handlerOf_def fun_eq_iff)
    have 1: "keeps p w ?w1" using assms unfolding keeps_def orphan_def h1 by auto
    show ?thesis
    proof (cases "onload x")
      case None
      then show ?thesis using Some True 1 by (simp add: xhrLoad_def Let_def)
    next
      case (Some h)
      let ?w2 = "?w1\<lparr>elements := (elements ?w1)[hTarget h :=
                        (elements ?w1 ! hTarget h)\<lparr>busy := Some ''false''\<rparr>]\<rparr>"
      have "orphan p ?w1" using 1 by (simp add: keeps_def)
      then have "keeps p ?w1 ?w2" by (rule keeps_cong) simp_all
      then have 2: "keeps p w ?w2" using 1 keeps_trans by blast
      have "handlerOf w name = Some (hPromise h)"
        using \<open>xhrs w name = Some x\<close> Some by (simp add: handlerOf_def)
      then have ne: "hPromise h \<noteq> p" using assms True unfolding orphan_def by auto
      have "orphan p ?w2" using 2 by (simp add: keeps_def)
      then have "keeps p ?w2 (settle (hPromise h) out ?w2)" for out using ne by (rule keeps_settle)
      then have "keeps p w (settle (hPromise h) out ?w2)" for out using 2 keeps_trans by blast
      then show ?thesis
        using \<open>xhrs w name = Some x\<close> True Some by (simp add: xhrLoad_def Let_def)
    qed
  qed
qed

lemma keeps_step: "orphan p w \<Longrightarrow> keeps p w (step e w)"
proof (cases e)
  case (Dom t ev)
  assume o: "orphan p w"
  then have 1: "keeps p w (w\<lparr>clock := max (clock w) t\<rparr>)" by (rule keeps_cong) simp_all
  then have "orphan p (w\<lparr>clock := max (clock w) t\<rparr>)" by (simp add: keeps_def)
  then have "keeps p (w\<lparr>clock := max (clock w) t\<rparr>) (handleInput ev (w\<lparr>clock := max (clock w) t\<rparr>))"
    by (rule keeps_handleInput)
  then show ?thesis using Dom 1 keeps_trans by fastforce
next
  case Tick
  assume "orphan p w"
  then show ?thesis using Tick by (simp add: tick_def keeps_fire keeps_refl split: option.splits)
next
  case (Settle q out)
  assume "orphan p w"
  then show ?thesis using Settle by (simp add: keeps_settleCustom)
next
  case (Load n st)
  assume "orphan p w"
  then show ?thesis using Load by (simp add: keeps_xhrLoad)
next
  case (NetError n)
  assume "orphan p w"
  then show ?thesis using NetError by (simp add: keeps_xhrError)
next
  case Validate
  assume "orphan p w"
  then have "keeps p w (validate w)"
    unfolding validate_def by (rule keeps_fold [rotated]) (simp add: keeps_validateField keeps_refl)
  then show ?thesis using Validate by simp
qed

lemma keeps_run: "orphan p w \<Longrightarrow> keeps p w (run evs w)"
  unfolding run_def
proof (induction evs arbitrary: w)
  case Nil
  then show ?case by (simp add: keeps_refl)
next
  case (Cons e evs)
  have 1: "keeps p w (step e w)" using Cons.prems by (rule keeps_step)
  then have "orphan p (step e w)" by (simp add: keeps_def)
  then have "keeps p (step e w) (fold step evs (step e w))" by (rule Cons.IH)
  then show ?case using 1 keeps_trans by fastforce
qed

text \<open>
  C6, as stated, fails in its last part: the pass in which the request fails does change
  what the field shows. On a new field, the pass marks the field and its parent valid
  before the rule is launched, and the failure leaves that standing while the promise is
  pending.
\<close>

theorem transport_failure_pass_counterexample:
  "classes (elements remoteWorld ! 0) = {}
   \<and> classes (elements (run [Validate, NetError ''__remote_request_user''] remoteWorld) ! 0)
       = {inputValidClass}
   \<and> parentClasses (elements (run [Validate, NetError ''__remote_request_user''] remoteWorld) ! 0)
       = {parentValidClass}
   \<and> console (run [Validate, NetError ''__remote_request_user''] remoteWorld) = [''0 '']
   \<and> promises (run [Validate, NetError ''__remote_request_user''] remoteWorld) 0 \<noteq> None"
  by code_simp

text \<open>
  C6, amended. In every state a run reaches from a new instance, when a request in
  flight fails at the transport level, the failure writes one line to the console and
  changes nothing else: no element, no promise, no timer, and no callback of
  \<open>validateField\<close> runs. The promise of the rule is pending and stays pending, as it is,
  whatever happens afterwards, and no callback ever runs for it.
\<close>

theorem transport_failure_only_logged:
  assumes "network w0 = []" and "promises w0 = Map.empty" and "w = run evs w0"
    and "(rid, name) \<in> set (network w)"
  shows "elements (xhrError name w) = elements w
         \<and> promises (xhrError name w) = promises w
         \<and> applied (xhrError name w) = applied w
         \<and> timers (xhrError name w) = timers w
         \<and> console (xhrError name w) = console w @ [''0 '']
         \<and> (\<exists>p pr. handlerOf w name = Some p \<and> promises w p = Some pr \<and> pKind pr = Remote
               \<and> (\<forall>evs'. promises (run evs' (xhrError name w)) p = Some pr
                     \<and> filter (\<lambda>a. fst a = p) (applied (run evs' (xhrError name w)))
                         = filter (\<lambda>a. fst a = p) (applied w)))"
proof -
  have inv: "xhrInv w" using assms(1-3) by (simp add: xhrInv_initial xhrInv_run)
  obtain x h pr where x: "xhrs w name = Some x" "onload x = Some h"
    "promises w (hPromise h) = Some pr" "pKind pr = Remote"
    using inv assms(4) unfolding xhrInv_def by fastforce
  have hw: "handlerOf w name = Some (hPromise h)" using x by (simp add: handlerOf_def)
  have inflight: "name \<in> snd ` set (network w)" using assms(4) by force
  have con: "console (xhrError name w) = console w @ [''0 '']"
    using x inflight by (simp add: xhrError_def)
  have net: "network (xhrError name w) = filter (\<lambda>r. snd r \<noteq> name) (network w)"
    using x inflight by (simp add: xhrError_def)
  have h': "handlerOf (xhrError name w) = handlerOf w"
    using x by (auto simp: handlerOf_def fun_eq_iff xhrError_def)
  have lt: "hPromise h < nextId w" using inv x unfolding xhrInv_def by blast
  have "\<forall>r \<in> set (network (xhrError name w)). handlerOf (xhrError name w) (snd r) \<noteq> Some (hPromise h)"
    unfolding net h' using others_not_handler [OF inv assms(4)] hw by simp
  then have orph: "orphan (hPromise h) (xhrError name w)"
    unfolding orphan_def using lt x by (simp add: xhrError_frame)
  have "promises (run evs' (xhrError name w)) (hPromise h) = Some pr
        \<and> filter (\<lambda>a. fst a = hPromise h) (applied (run evs' (xhrError name w)))
            = filter (\<lambda>a. fst a = hPromise h) (applied w)" for evs'
    using keeps_run [OF orph, of evs'] x by (simp add: keeps_def xhrError_frame)
  then show ?thesis using hw x con by (simp add: xhrError_frame)
qed

theorem transport_failure_only_logged_witness:
  "(1, ''__remote_request_user'') \<in> set (network (run [Validate] remoteWorld))
   \<and> console (xhrError ''__remote_request_user'' (run [Validate] remoteWorld)) = [''0 '']
   \<and> promises (run [Tick, Load ''__remote_request_user'' 200, Settle 0 Fulfilled]
        (xhrError ''__remote_request_user'' (run [Validate] remoteWorld))) 0
       = promises (run [Validate] remoteWorld) 0
   \<and> promises (run [Validate] remoteWorld) 0 \<noteq> None"
proof -
  let ?w = "run [Validate] remoteWorld"
  let ?n = "''__remote_request_user''"
  have a: "network remoteWorld = []" by (simp add: remoteWorld_def freshWorld_def)
  have b: "promises remoteWorld = Map.empty" by (simp add: remoteWorld_def freshWorld_def)
  have c: "(1, ?n) \<in> set (network ?w)" by code_simp
  have h: "handlerOf ?w ?n = Some 0" by code_simp
  have k: "console ?w = []" by code_simp
  note t = transport_failure_only_logged [OF a b refl c]
  from t obtain p pr where p: "handlerOf ?w ?n = Some p" "promises ?w p = Some pr"
    "\<forall>evs'. promises (run evs' (xhrError ?n ?w)) p = Some pr" by blast
  from p(1) h have "p = 0" by simp
  with p have "promises (run [Tick, Load ?n 200, Settle 0 Fulfilled] (xhrError ?n ?w)) 0 = promises ?w 0"
    "promises ?w 0 \<noteq> None" by simp_all
  moreover have "console (xhrError ?n ?w) = [''0 '']" using t k by simp
  ultimately show ?thesis using c by blast
qed

subsection \<open>Two validations before the first response\<close>










section \<open>Theorems: settlement of a custom rule\<close>

text \<open>
  C1, as stated, fails: the code keeps no generation. Two passes on one field launch the
  rule \<open>unique\<close> twice (promise 0 in pass 1, promise 1 in pass 2). The promise of pass 2 is
  fulfilled and the field is shown valid; then the promise of pass 1 is rejected, its
  callback runs, and the field is shown invalid with the message of pass 1.
\<close>

theorem race_counterexample:
  "map_option pPass (promises (run [Dom 0 (inputOn 0), Dom 50 (inputOn 0)] raceWorld) 0) = Some 1
   \<and> map_option pPass (promises (run [Dom 0 (inputOn 0), Dom 50 (inputOn 0)] raceWorld) 1) = Some 2
   \<and> inputInvalidClass \<notin> classes (elements (run [Dom 0 (inputOn 0), Dom 50 (inputOn 0),
         Settle 1 Fulfilled] raceWorld) ! 0)
   \<and> inputInvalidClass \<in> classes (elements (run [Dom 0 (inputOn 0), Dom 50 (inputOn 0),
         Settle 1 Fulfilled, Settle 0 (Rejected (Some ''taken''))] raceWorld) ! 0)
   \<and> feedback (elements (run [Dom 0 (inputOn 0), Dom 50 (inputOn 0),
         Settle 1 Fulfilled, Settle 0 (Rejected (Some ''taken''))] raceWorld) ! 0) = Some ''taken''
   \<and> applied (run [Dom 0 (inputOn 0), Dom 50 (inputOn 0),
         Settle 1 Fulfilled, Settle 0 (Rejected (Some ''taken''))] raceWorld)
       = [(1, Fulfilled), (0, Rejected (Some ''taken''))]"
  by code_simp

text \<open>
  C1, amended. When the promise of a custom rule settles, the callback for its outcome
  runs on the field, whichever pass launched the rule and whatever passes have started
  since: fulfilled, the custom error is cleared and the field is no longer shown
  invalid; rejected, the field is shown invalid with the message of the rejection. The
  state of the field after a settlement is that settlement's.
\<close>

theorem settlement_applied_whatever_pass:
  assumes "promises w p = Some pr" and "pKind pr = Custom" and "pTarget pr < length (elements w)"
  shows "elements (step (Settle p out) w)
           = (elements w)[pTarget pr := onSettled (opts w) (cat w) (pAttr pr) out (elements w ! pTarget pr)]
         \<and> applied (step (Settle p out) w) = applied w @ [(p, out)]
         \<and> (out = Fulfilled \<longrightarrow>
              inputInvalidClass \<notin> classes (elements (step (Settle p out) w) ! pTarget pr)
              \<and> customValidity (elements (step (Settle p out) w) ! pTarget pr) = [])
         \<and> (\<forall>err. out = Rejected err \<longrightarrow>
              inputInvalidClass \<in> classes (elements (step (Settle p out) w) ! pTarget pr)
              \<and> customValidity (elements (step (Settle p out) w) ! pTarget pr)
                  = rejectionMessage (elements w ! pTarget pr) (pAttr pr) err
              \<and> feedback (elements (step (Settle p out) w) ! pTarget pr)
                  = Some (validationMessage (elements (step (Settle p out) w) ! pTarget pr)))"
  using assms
  by (auto simp: settleCustom_def settle_def onSettled_def clearError_def setError_def
      getMessage_def validationMessage_def
      inputInvalidClass_def inputValidClass_def Let_def)

theorem settlement_applied_whatever_pass_witness:
  "promises (run [Dom 0 (inputOn 0), Dom 50 (inputOn 0), Settle 1 Fulfilled] raceWorld) 0
     = Some \<lparr>pTarget = 0, pAttr = ''data-eager-unique'', pKind = Custom, pPass = 1\<rparr>
   \<and> applied (step (Settle 0 (Rejected (Some ''taken'')))
        (run [Dom 0 (inputOn 0), Dom 50 (inputOn 0), Settle 1 Fulfilled] raceWorld))
       = [(1, Fulfilled), (0, Rejected (Some ''taken''))]
   \<and> inputInvalidClass \<in> classes (elements (step (Settle 0 (Rejected (Some ''taken'')))
        (run [Dom 0 (inputOn 0), Dom 50 (inputOn 0), Settle 1 Fulfilled] raceWorld)) ! 0)"
proof -
  let ?w = "run [Dom 0 (inputOn 0), Dom 50 (inputOn 0), Settle 1 Fulfilled] raceWorld"
  let ?pr = "\<lparr>pTarget = 0, pAttr = ''data-eager-unique'', pKind = Custom, pPass = 1\<rparr>"
  have a: "promises ?w 0 = Some ?pr" by code_simp
  have b: "pKind ?pr = Custom" by simp
  have c: "pTarget ?pr < length (elements ?w)" by code_simp
  have d: "applied ?w = [(1, Fulfilled)]" by code_simp
  note t = settlement_applied_whatever_pass [OF a b c, of "Rejected (Some ''taken'')"]
  from t have "applied (step (Settle 0 (Rejected (Some ''taken''))) ?w)
                 = applied ?w @ [(0, Rejected (Some ''taken''))]" by blast
  then have e: "applied (step (Settle 0 (Rejected (Some ''taken''))) ?w)
                 = [(1, Fulfilled), (0, Rejected (Some ''taken''))]" unfolding d by simp
  from t have f: "inputInvalidClass \<in> classes (elements (step (Settle 0 (Rejected (Some ''taken''))) ?w)
                     ! pTarget ?pr)" by blast
  have g: "pTarget ?pr = 0" by simp
  show ?thesis using a e f [unfolded g] by blast
qed

end
